theory Spec2Isabelle
  imports Main "HOL-Library.Word"
begin

section \<open>JavaScript strings and normalizeTrxID (src/worker/src/services/smsParser.ts)\<close>

text \<open>
  A JavaScript string is a sequence of 16-bit UTF-16 code units. Code points and the values
  of code units are \<open>int\<close>. \<open>js\<close> is the string of an ASCII literal.
\<close>

type_synonym jsstring = "16 word list"

definition js :: "string \<Rightarrow> jsstring" where
  "js s = map (\<lambda>c. word_of_int (of_char c)) s"

text \<open>
  \<open>String.prototype.trim\<close> removes WhiteSpace and LineTerminator code points from both
  ends: TAB, LF, VT, FF, CR, SPACE, U+00A0, U+1680, U+2000 to U+200A, U+2028, U+2029,
  U+202F, U+205F, U+3000 and U+FEFF.
\<close>

definition isWhiteSpace :: "int \<Rightarrow> bool" where
  "isWhiteSpace c =
     ((9 \<le> c \<and> c \<le> 13) \<or> c = 32 \<or> c = 160 \<or> c = 5760 \<or> (8192 \<le> c \<and> c \<le> 8202)
      \<or> c = 8232 \<or> c = 8233 \<or> c = 8239 \<or> c = 8287 \<or> c = 12288 \<or> c = 65279)"

definition trim :: "jsstring \<Rightarrow> jsstring" where
  "trim s = rev (dropWhile (\<lambda>u. isWhiteSpace (uint u))
                   (rev (dropWhile (\<lambda>u. isWhiteSpace (uint u)) s)))"

text \<open>
  \<open>String.prototype.toUpperCase\<close>: the string is read as code points (a leading
  surrogate followed by a trailing surrogate is one code point, any other code unit is
  a code point of its own), every code point is replaced by its full Unicode uppercase
  mapping, and the result is encoded in UTF-16 again.
\<close>

definition isLeadingSurrogate :: "int \<Rightarrow> bool" where
  "isLeadingSurrogate u = (55296 \<le> u \<and> u \<le> 56319)"

definition isTrailingSurrogate :: "int \<Rightarrow> bool" where
  "isTrailingSurrogate u = (56320 \<le> u \<and> u \<le> 57343)"

fun StringToCodePoints :: "int list \<Rightarrow> int list" where
  "StringToCodePoints (h # l # rest) =
     (if isLeadingSurrogate h \<and> isTrailingSurrogate l
      then (65536 + (h - 55296) * 1024 + (l - 56320)) # StringToCodePoints rest
      else h # StringToCodePoints (l # rest))"
| "StringToCodePoints [u] = [u]"
| "StringToCodePoints [] = []"

definition UTF16EncodeCodePoint :: "int \<Rightarrow> int list" where
  "UTF16EncodeCodePoint cp =
     (if cp \<le> 65535 then [cp]
      else [(cp - 65536) div 1024 + 55296, (cp - 65536) mod 1024 + 56320])"

definition CodePointsToString :: "int list \<Rightarrow> int list" where
  "CodePointsToString cps = concat (map UTF16EncodeCodePoint cps)"

text \<open>
  The uppercase mappings of the Unicode Character Database, version 14.0
  (Simple_Uppercase_Mapping of UnicodeData.txt and the unconditional mappings of
  SpecialCasing.txt), sorted by code point. An entry \<open>(lo, hi, step, out)\<close> stands for
  the code points \<open>lo, lo + step, ..., hi\<close>; the code point \<open>c\<close> among them is mapped
  to \<open>out\<close> shifted by \<open>c - lo\<close>. A code point in no entry is mapped to itself.
\<close>

type_synonym caseEntry = "int \<times> int \<times> int \<times> int list"

definition upperTable :: "caseEntry list" where
  "upperTable =
     [(97, 122, 1, [65]), (181, 181, 1, [924]), (223, 223, 1, [83, 83]),
      (224, 246, 1, [192]), (248, 254, 1, [216]), (255, 255, 1, [376]), (257, 303, 2, [256]),
      (305, 305, 1, [73]), (307, 311, 2, [306]), (314, 328, 2, [313]),
      (329, 329, 1, [700, 78]), (331, 375, 2, [330]), (378, 382, 2, [377]),
      (383, 383, 1, [83]), (384, 384, 1, [579]), (387, 389, 2, [386]), (392, 392, 1, [391]),
      (396, 396, 1, [395]), (402, 402, 1, [401]), (405, 405, 1, [502]), (409, 409, 1, [408]),
      (410, 410, 1, [573]), (414, 414, 1, [544]), (417, 421, 2, [416]), (424, 424, 1, [423]),
      (429, 429, 1, [428]), (432, 432, 1, [431]), (436, 438, 2, [435]), (441, 441, 1, [440]),
      (445, 445, 1, [444]), (447, 447, 1, [503]), (453, 453, 1, [452]), (454, 454, 1, [452]),
      (456, 456, 1, [455]), (457, 457, 1, [455]), (459, 459, 1, [458]), (460, 460, 1, [458]),
      (462, 476, 2, [461]), (477, 477, 1, [398]), (479, 495, 2, [478]),
      (496, 496, 1, [74, 780]), (498, 498, 1, [497]), (499, 499, 1, [497]),
      (501, 501, 1, [500]), (505, 543, 2, [504]), (547, 563, 2, [546]), (572, 572, 1, [571]),
      (575, 576, 1, [11390]), (578, 578, 1, [577]), (583, 591, 2, [582]),
      (592, 592, 1, [11375]), (593, 593, 1, [11373]), (594, 594, 1, [11376]),
      (595, 595, 1, [385]), (596, 596, 1, [390]), (598, 599, 1, [393]), (601, 601, 1, [399]),
      (603, 603, 1, [400]), (604, 604, 1, [42923]), (608, 608, 1, [403]),
      (609, 609, 1, [42924]), (611, 611, 1, [404]), (613, 613, 1, [42893]),
      (614, 614, 1, [42922]), (616, 616, 1, [407]), (617, 617, 1, [406]),
      (618, 618, 1, [42926]), (619, 619, 1, [11362]), (620, 620, 1, [42925]),
      (623, 623, 1, [412]), (625, 625, 1, [11374]), (626, 626, 1, [413]),
      (629, 629, 1, [415]), (637, 637, 1, [11364]), (640, 640, 1, [422]),
      (642, 642, 1, [42949]), (643, 643, 1, [425]), (647, 647, 1, [42929]),
      (648, 648, 1, [430]), (649, 649, 1, [580]), (650, 651, 1, [433]), (652, 652, 1, [581]),
      (658, 658, 1, [439]), (669, 669, 1, [42930]), (670, 670, 1, [42928]),
      (837, 837, 1, [921]), (881, 883, 2, [880]), (887, 887, 1, [886]),
      (891, 893, 1, [1021]), (912, 912, 1, [921, 776, 769]), (940, 940, 1, [902]),
      (941, 943, 1, [904]), (944, 944, 1, [933, 776, 769]), (945, 961, 1, [913]),
      (962, 962, 1, [931]), (963, 971, 1, [931]), (972, 972, 1, [908]), (973, 974, 1, [910]),
      (976, 976, 1, [914]), (977, 977, 1, [920]), (981, 981, 1, [934]), (982, 982, 1, [928]),
      (983, 983, 1, [975]), (985, 1007, 2, [984]), (1008, 1008, 1, [922]),
      (1009, 1009, 1, [929]), (1010, 1010, 1, [1017]), (1011, 1011, 1, [895]),
      (1013, 1013, 1, [917]), (1016, 1016, 1, [1015]), (1019, 1019, 1, [1018]),
      (1072, 1103, 1, [1040]), (1104, 1119, 1, [1024]), (1121, 1153, 2, [1120]),
      (1163, 1215, 2, [1162]), (1218, 1230, 2, [1217]), (1231, 1231, 1, [1216]),
      (1233, 1327, 2, [1232]), (1377, 1414, 1, [1329]), (1415, 1415, 1, [1333, 1362]),
      (4304, 4346, 1, [7312]), (4349, 4351, 1, [7357]), (5112, 5117, 1, [5104]),
      (7296, 7296, 1, [1042]), (7297, 7297, 1, [1044]), (7298, 7298, 1, [1054]),
      (7299, 7300, 1, [1057]), (7301, 7301, 1, [1058]), (7302, 7302, 1, [1066]),
      (7303, 7303, 1, [1122]), (7304, 7304, 1, [42570]), (7545, 7545, 1, [42877]),
      (7549, 7549, 1, [11363]), (7566, 7566, 1, [42950]), (7681, 7829, 2, [7680]),
      (7830, 7830, 1, [72, 817]), (7831, 7831, 1, [84, 776]), (7832, 7832, 1, [87, 778]),
      (7833, 7833, 1, [89, 778]), (7834, 7834, 1, [65, 702]), (7835, 7835, 1, [7776]),
      (7841, 7935, 2, [7840]), (7936, 7943, 1, [7944]), (7952, 7957, 1, [7960]),
      (7968, 7975, 1, [7976]), (7984, 7991, 1, [7992]), (8000, 8005, 1, [8008]),
      (8016, 8016, 1, [933, 787]), (8017, 8017, 1, [8025]), (8018, 8018, 1, [933, 787, 768]),
      (8019, 8019, 1, [8027]), (8020, 8020, 1, [933, 787, 769]), (8021, 8021, 1, [8029]),
      (8022, 8022, 1, [933, 787, 834]), (8023, 8023, 1, [8031]), (8032, 8039, 1, [8040]),
      (8048, 8049, 1, [8122]), (8050, 8053, 1, [8136]), (8054, 8055, 1, [8154]),
      (8056, 8057, 1, [8184]), (8058, 8059, 1, [8170]), (8060, 8061, 1, [8186]),
      (8064, 8064, 1, [7944, 921]), (8065, 8065, 1, [7945, 921]),
      (8066, 8066, 1, [7946, 921]), (8067, 8067, 1, [7947, 921]),
      (8068, 8068, 1, [7948, 921]), (8069, 8069, 1, [7949, 921]),
      (8070, 8070, 1, [7950, 921]), (8071, 8071, 1, [7951, 921]),
      (8072, 8072, 1, [7944, 921]), (8073, 8073, 1, [7945, 921]),
      (8074, 8074, 1, [7946, 921]), (8075, 8075, 1, [7947, 921]),
      (8076, 8076, 1, [7948, 921]), (8077, 8077, 1, [7949, 921]),
      (8078, 8078, 1, [7950, 921]), (8079, 8079, 1, [7951, 921]),
      (8080, 8080, 1, [7976, 921]), (8081, 8081, 1, [7977, 921]),
      (8082, 8082, 1, [7978, 921]), (8083, 8083, 1, [7979, 921]),
      (8084, 8084, 1, [7980, 921]), (8085, 8085, 1, [7981, 921]),
      (8086, 8086, 1, [7982, 921]), (8087, 8087, 1, [7983, 921]),
      (8088, 8088, 1, [7976, 921]), (8089, 8089, 1, [7977, 921]),
      (8090, 8090, 1, [7978, 921]), (8091, 8091, 1, [7979, 921]),
      (8092, 8092, 1, [7980, 921]), (8093, 8093, 1, [7981, 921]),
      (8094, 8094, 1, [7982, 921]), (8095, 8095, 1, [7983, 921]),
      (8096, 8096, 1, [8040, 921]), (8097, 8097, 1, [8041, 921]),
      (8098, 8098, 1, [8042, 921]), (8099, 8099, 1, [8043, 921]),
      (8100, 8100, 1, [8044, 921]), (8101, 8101, 1, [8045, 921]),
      (8102, 8102, 1, [8046, 921]), (8103, 8103, 1, [8047, 921]),
      (8104, 8104, 1, [8040, 921]), (8105, 8105, 1, [8041, 921]),
      (8106, 8106, 1, [8042, 921]), (8107, 8107, 1, [8043, 921]),
      (8108, 8108, 1, [8044, 921]), (8109, 8109, 1, [8045, 921]),
      (8110, 8110, 1, [8046, 921]), (8111, 8111, 1, [8047, 921]), (8112, 8113, 1, [8120]),
      (8114, 8114, 1, [8122, 921]), (8115, 8115, 1, [913, 921]), (8116, 8116, 1, [902, 921]),
      (8118, 8118, 1, [913, 834]), (8119, 8119, 1, [913, 834, 921]),
      (8124, 8124, 1, [913, 921]), (8126, 8126, 1, [921]), (8130, 8130, 1, [8138, 921]),
      (8131, 8131, 1, [919, 921]), (8132, 8132, 1, [905, 921]), (8134, 8134, 1, [919, 834]),
      (8135, 8135, 1, [919, 834, 921]), (8140, 8140, 1, [919, 921]), (8144, 8145, 1, [8152]),
      (8146, 8146, 1, [921, 776, 768]), (8147, 8147, 1, [921, 776, 769]),
      (8150, 8150, 1, [921, 834]), (8151, 8151, 1, [921, 776, 834]), (8160, 8161, 1, [8168]),
      (8162, 8162, 1, [933, 776, 768]), (8163, 8163, 1, [933, 776, 769]),
      (8164, 8164, 1, [929, 787]), (8165, 8165, 1, [8172]), (8166, 8166, 1, [933, 834]),
      (8167, 8167, 1, [933, 776, 834]), (8178, 8178, 1, [8186, 921]),
      (8179, 8179, 1, [937, 921]), (8180, 8180, 1, [911, 921]), (8182, 8182, 1, [937, 834]),
      (8183, 8183, 1, [937, 834, 921]), (8188, 8188, 1, [937, 921]), (8526, 8526, 1, [8498]),
      (8560, 8575, 1, [8544]), (8580, 8580, 1, [8579]), (9424, 9449, 1, [9398]),
      (11312, 11359, 1, [11264]), (11361, 11361, 1, [11360]), (11365, 11365, 1, [570]),
      (11366, 11366, 1, [574]), (11368, 11372, 2, [11367]), (11379, 11379, 1, [11378]),
      (11382, 11382, 1, [11381]), (11393, 11491, 2, [11392]), (11500, 11502, 2, [11499]),
      (11507, 11507, 1, [11506]), (11520, 11557, 1, [4256]), (11559, 11559, 1, [4295]),
      (11565, 11565, 1, [4301]), (42561, 42605, 2, [42560]), (42625, 42651, 2, [42624]),
      (42787, 42799, 2, [42786]), (42803, 42863, 2, [42802]), (42874, 42876, 2, [42873]),
      (42879, 42887, 2, [42878]), (42892, 42892, 1, [42891]), (42897, 42899, 2, [42896]),
      (42900, 42900, 1, [42948]), (42903, 42921, 2, [42902]), (42933, 42947, 2, [42932]),
      (42952, 42954, 2, [42951]), (42961, 42961, 1, [42960]), (42967, 42969, 2, [42966]),
      (42998, 42998, 1, [42997]), (43859, 43859, 1, [42931]), (43888, 43967, 1, [5024]),
      (64256, 64256, 1, [70, 70]), (64257, 64257, 1, [70, 73]), (64258, 64258, 1, [70, 76]),
      (64259, 64259, 1, [70, 70, 73]), (64260, 64260, 1, [70, 70, 76]),
      (64261, 64261, 1, [83, 84]), (64262, 64262, 1, [83, 84]),
      (64275, 64275, 1, [1348, 1350]), (64276, 64276, 1, [1348, 1333]),
      (64277, 64277, 1, [1348, 1339]), (64278, 64278, 1, [1358, 1350]),
      (64279, 64279, 1, [1348, 1341]), (65345, 65370, 1, [65313]),
      (66600, 66639, 1, [66560]), (66776, 66811, 1, [66736]), (66967, 66977, 1, [66928]),
      (66979, 66993, 1, [66940]), (66995, 67001, 1, [66956]), (67003, 67004, 1, [66964]),
      (68800, 68850, 1, [68736]), (71872, 71903, 1, [71840]), (93792, 93823, 1, [93760]),
      (125218, 125251, 1, [125184])]"

definition inEntry :: "int \<Rightarrow> caseEntry \<Rightarrow> bool" where
  "inEntry c e = (case e of (lo, hi, step, out) \<Rightarrow> lo \<le> c \<and> c \<le> hi \<and> (c - lo) mod step = 0)"

definition entryOutput :: "caseEntry \<Rightarrow> int \<Rightarrow> int list" where
  "entryOutput e c = (case e of (lo, hi, step, out) \<Rightarrow> map (\<lambda>t. t + (c - lo)) out)"

definition toUppercase :: "int \<Rightarrow> int list" where
  "toUppercase c =
     (case find (inEntry c) upperTable of Some e \<Rightarrow> entryOutput e c | None \<Rightarrow> [c])"

definition toUpperCaseBy :: "(int \<Rightarrow> int list) \<Rightarrow> jsstring \<Rightarrow> jsstring" where
  "toUpperCaseBy up s =
     map word_of_int (CodePointsToString (concat (map up (StringToCodePoints (map uint s)))))"

definition toUpperCase :: "jsstring \<Rightarrow> jsstring" where
  "toUpperCase s = toUpperCaseBy toUppercase s"

text \<open>\<open>normalizeTrxID\<close> is \<open>trxid.trim().toUpperCase()\<close>.\<close>

definition normalizeTrxID :: "jsstring \<Rightarrow> jsstring" where
  "normalizeTrxID t = toUpperCase (trim t)"

text \<open>
  The same table as a search tree, for looking a code point up in few steps
  (\<open>upperTable_inorder\<close>, \<open>toUppercase_tree\<close>).
\<close>

datatype caseTree = Leaf | Node caseTree caseEntry caseTree

definition upperTree :: caseTree where
  "upperTree =
     (Node
      (Node
       (Node
        (Node
         (Node
          (Node
           (Node
            (Node
             (Node Leaf (97, 122, 1, [65]) Leaf)
             (181, 181, 1, [924])
             Leaf)
            (223, 223, 1, [83, 83])
            (Node Leaf (224, 246, 1, [192]) Leaf))
           (248, 254, 1, [216])
           (Node
            (Node
             (Node Leaf (255, 255, 1, [376]) Leaf)
             (257, 303, 2, [256])
             Leaf)
            (305, 305, 1, [73])
            (Node Leaf (307, 311, 2, [306]) Leaf)))
          (314, 328, 2, [313])
          (Node
           (Node
            (Node
             (Node Leaf (329, 329, 1, [700, 78]) Leaf)
             (331, 375, 2, [330])
             Leaf)
            (378, 382, 2, [377])
            (Node Leaf (383, 383, 1, [83]) Leaf))
           (384, 384, 1, [579])
           (Node
            (Node Leaf (387, 389, 2, [386]) Leaf)
            (392, 392, 1, [391])
            (Node Leaf (396, 396, 1, [395]) Leaf))))
         (402, 402, 1, [401])
         (Node
          (Node
           (Node
            (Node
             (Node Leaf (405, 405, 1, [502]) Leaf)
             (409, 409, 1, [408])
             Leaf)
            (410, 410, 1, [573])
            (Node Leaf (414, 414, 1, [544]) Leaf))
           (417, 421, 2, [416])
           (Node
            (Node
             (Node Leaf (424, 424, 1, [423]) Leaf)
             (429, 429, 1, [428])
             Leaf)
            (432, 432, 1, [431])
            (Node Leaf (436, 438, 2, [435]) Leaf)))
          (441, 441, 1, [440])
          (Node
           (Node
            (Node
             (Node Leaf (445, 445, 1, [444]) Leaf)
             (447, 447, 1, [503])
             Leaf)
            (453, 453, 1, [452])
            (Node Leaf (454, 454, 1, [452]) Leaf))
           (456, 456, 1, [455])
           (Node
            (Node Leaf (457, 457, 1, [455]) Leaf)
            (459, 459, 1, [458])
            (Node Leaf (460, 460, 1, [458]) Leaf)))))
        (462, 476, 2, [461])
        (Node
         (Node
          (Node
           (Node
            (Node
             (Node Leaf (477, 477, 1, [398]) Leaf)
             (479, 495, 2, [478])
             Leaf)
            (496, 496, 1, [74, 780])
            (Node Leaf (498, 498, 1, [497]) Leaf))
           (499, 499, 1, [497])
           (Node
            (Node
             (Node Leaf (501, 501, 1, [500]) Leaf)
             (505, 543, 2, [504])
             Leaf)
            (547, 563, 2, [546])
            (Node Leaf (572, 572, 1, [571]) Leaf)))
          (575, 576, 1, [11390])
          (Node
           (Node
            (Node
             (Node Leaf (578, 578, 1, [577]) Leaf)
             (583, 591, 2, [582])
             Leaf)
            (592, 592, 1, [11375])
            (Node Leaf (593, 593, 1, [11373]) Leaf))
           (594, 594, 1, [11376])
           (Node
            (Node Leaf (595, 595, 1, [385]) Leaf)
            (596, 596, 1, [390])
            (Node Leaf (598, 599, 1, [393]) Leaf))))
         (601, 601, 1, [399])
         (Node
          (Node
           (Node
            (Node
             (Node Leaf (603, 603, 1, [400]) Leaf)
             (604, 604, 1, [42923])
             Leaf)
            (608, 608, 1, [403])
            (Node Leaf (609, 609, 1, [42924]) Leaf))
           (611, 611, 1, [404])
           (Node
            (Node Leaf (613, 613, 1, [42893]) Leaf)
            (614, 614, 1, [42922])
            (Node Leaf (616, 616, 1, [407]) Leaf)))
          (617, 617, 1, [406])
          (Node
           (Node
            (Node
             (Node Leaf (618, 618, 1, [42926]) Leaf)
             (619, 619, 1, [11362])
             Leaf)
            (620, 620, 1, [42925])
            (Node Leaf (623, 623, 1, [412]) Leaf))
           (625, 625, 1, [11374])
           (Node
            (Node Leaf (626, 626, 1, [413]) Leaf)
            (629, 629, 1, [415])
            (Node Leaf (637, 637, 1, [11364]) Leaf))))))
       (640, 640, 1, [422])
       (Node
        (Node
         (Node
          (Node
           (Node
            (Node
             (Node Leaf (642, 642, 1, [42949]) Leaf)
             (643, 643, 1, [425])
             Leaf)
            (647, 647, 1, [42929])
            (Node Leaf (648, 648, 1, [430]) Leaf))
           (649, 649, 1, [580])
           (Node
            (Node
             (Node Leaf (650, 651, 1, [433]) Leaf)
             (652, 652, 1, [581])
             Leaf)
            (658, 658, 1, [439])
            (Node Leaf (669, 669, 1, [42930]) Leaf)))
          (670, 670, 1, [42928])
          (Node
           (Node
            (Node
             (Node Leaf (837, 837, 1, [921]) Leaf)
             (881, 883, 2, [880])
             Leaf)
            (887, 887, 1, [886])
            (Node Leaf (891, 893, 1, [1021]) Leaf))
           (912, 912, 1, [921, 776, 769])
           (Node
            (Node Leaf (940, 940, 1, [902]) Leaf)
            (941, 943, 1, [904])
            (Node Leaf (944, 944, 1, [933, 776, 769]) Leaf))))
         (945, 961, 1, [913])
         (Node
          (Node
           (Node
            (Node
             (Node Leaf (962, 962, 1, [931]) Leaf)
             (963, 971, 1, [931])
             Leaf)
            (972, 972, 1, [908])
            (Node Leaf (973, 974, 1, [910]) Leaf))
           (976, 976, 1, [914])
           (Node
            (Node
             (Node Leaf (977, 977, 1, [920]) Leaf)
             (981, 981, 1, [934])
             Leaf)
            (982, 982, 1, [928])
            (Node Leaf (983, 983, 1, [975]) Leaf)))
          (985, 1007, 2, [984])
          (Node
           (Node
            (Node
             (Node Leaf (1008, 1008, 1, [922]) Leaf)
             (1009, 1009, 1, [929])
             Leaf)
            (1010, 1010, 1, [1017])
            (Node Leaf (1011, 1011, 1, [895]) Leaf))
           (1013, 1013, 1, [917])
           (Node
            (Node Leaf (1016, 1016, 1, [1015]) Leaf)
            (1019, 1019, 1, [1018])
            (Node Leaf (1072, 1103, 1, [1040]) Leaf)))))
        (1104, 1119, 1, [1024])
        (Node
         (Node
          (Node
           (Node
            (Node
             (Node Leaf (1121, 1153, 2, [1120]) Leaf)
             (1163, 1215, 2, [1162])
             Leaf)
            (1218, 1230, 2, [1217])
            (Node Leaf (1231, 1231, 1, [1216]) Leaf))
           (1233, 1327, 2, [1232])
           (Node
            (Node
             (Node Leaf (1377, 1414, 1, [1329]) Leaf)
             (1415, 1415, 1, [1333, 1362])
             Leaf)
            (4304, 4346, 1, [7312])
            (Node Leaf (4349, 4351, 1, [7357]) Leaf)))
          (5112, 5117, 1, [5104])
          (Node
           (Node
            (Node
             (Node Leaf (7296, 7296, 1, [1042]) Leaf)
             (7297, 7297, 1, [1044])
             Leaf)
            (7298, 7298, 1, [1054])
            (Node Leaf (7299, 7300, 1, [1057]) Leaf))
           (7301, 7301, 1, [1058])
           (Node
            (Node Leaf (7302, 7302, 1, [1066]) Leaf)
            (7303, 7303, 1, [1122])
            (Node Leaf (7304, 7304, 1, [42570]) Leaf))))
         (7545, 7545, 1, [42877])
         (Node
          (Node
           (Node
            (Node
             (Node Leaf (7549, 7549, 1, [11363]) Leaf)
             (7566, 7566, 1, [42950])
             Leaf)
            (7681, 7829, 2, [7680])
            (Node Leaf (7830, 7830, 1, [72, 817]) Leaf))
           (7831, 7831, 1, [84, 776])
           (Node
            (Node Leaf (7832, 7832, 1, [87, 778]) Leaf)
            (7833, 7833, 1, [89, 778])
            (Node Leaf (7834, 7834, 1, [65, 702]) Leaf)))
          (7835, 7835, 1, [7776])
          (Node
           (Node
            (Node
             (Node Leaf (7841, 7935, 2, [7840]) Leaf)
             (7936, 7943, 1, [7944])
             Leaf)
            (7952, 7957, 1, [7960])
            (Node Leaf (7968, 7975, 1, [7976]) Leaf))
           (7984, 7991, 1, [7992])
           (Node
            (Node Leaf (8000, 8005, 1, [8008]) Leaf)
            (8016, 8016, 1, [933, 787])
            (Node Leaf (8017, 8017, 1, [8025]) Leaf)))))))
      (8018, 8018, 1, [933, 787, 768])
      (Node
       (Node
        (Node
         (Node
          (Node
           (Node
            (Node
             (Node Leaf (8019, 8019, 1, [8027]) Leaf)
             (8020, 8020, 1, [933, 787, 769])
             Leaf)
            (8021, 8021, 1, [8029])
            (Node Leaf (8022, 8022, 1, [933, 787, 834]) Leaf))
           (8023, 8023, 1, [8031])
           (Node
            (Node
             (Node Leaf (8032, 8039, 1, [8040]) Leaf)
             (8048, 8049, 1, [8122])
             Leaf)
            (8050, 8053, 1, [8136])
            (Node Leaf (8054, 8055, 1, [8154]) Leaf)))
          (8056, 8057, 1, [8184])
          (Node
           (Node
            (Node
             (Node Leaf (8058, 8059, 1, [8170]) Leaf)
             (8060, 8061, 1, [8186])
             Leaf)
            (8064, 8064, 1, [7944, 921])
            (Node Leaf (8065, 8065, 1, [7945, 921]) Leaf))
           (8066, 8066, 1, [7946, 921])
           (Node
            (Node Leaf (8067, 8067, 1, [7947, 921]) Leaf)
            (8068, 8068, 1, [7948, 921])
            (Node Leaf (8069, 8069, 1, [7949, 921]) Leaf))))
         (8070, 8070, 1, [7950, 921])
         (Node
          (Node
           (Node
            (Node
             (Node Leaf (8071, 8071, 1, [7951, 921]) Leaf)
             (8072, 8072, 1, [7944, 921])
             Leaf)
            (8073, 8073, 1, [7945, 921])
            (Node Leaf (8074, 8074, 1, [7946, 921]) Leaf))
           (8075, 8075, 1, [7947, 921])
           (Node
            (Node
             (Node Leaf (8076, 8076, 1, [7948, 921]) Leaf)
             (8077, 8077, 1, [7949, 921])
             Leaf)
            (8078, 8078, 1, [7950, 921])
            (Node Leaf (8079, 8079, 1, [7951, 921]) Leaf)))
          (8080, 8080, 1, [7976, 921])
          (Node
           (Node
            (Node
             (Node Leaf (8081, 8081, 1, [7977, 921]) Leaf)
             (8082, 8082, 1, [7978, 921])
             Leaf)
            (8083, 8083, 1, [7979, 921])
            (Node Leaf (8084, 8084, 1, [7980, 921]) Leaf))
           (8085, 8085, 1, [7981, 921])
           (Node
            (Node Leaf (8086, 8086, 1, [7982, 921]) Leaf)
            (8087, 8087, 1, [7983, 921])
            (Node Leaf (8088, 8088, 1, [7976, 921]) Leaf)))))
        (8089, 8089, 1, [7977, 921])
        (Node
         (Node
          (Node
           (Node
            (Node
             (Node Leaf (8090, 8090, 1, [7978, 921]) Leaf)
             (8091, 8091, 1, [7979, 921])
             Leaf)
            (8092, 8092, 1, [7980, 921])
            (Node Leaf (8093, 8093, 1, [7981, 921]) Leaf))
           (8094, 8094, 1, [7982, 921])
           (Node
            (Node
             (Node Leaf (8095, 8095, 1, [7983, 921]) Leaf)
             (8096, 8096, 1, [8040, 921])
             Leaf)
            (8097, 8097, 1, [8041, 921])
            (Node Leaf (8098, 8098, 1, [8042, 921]) Leaf)))
          (8099, 8099, 1, [8043, 921])
          (Node
           (Node
            (Node
             (Node Leaf (8100, 8100, 1, [8044, 921]) Leaf)
             (8101, 8101, 1, [8045, 921])
             Leaf)
            (8102, 8102, 1, [8046, 921])
            (Node Leaf (8103, 8103, 1, [8047, 921]) Leaf))
           (8104, 8104, 1, [8040, 921])
           (Node
            (Node Leaf (8105, 8105, 1, [8041, 921]) Leaf)
            (8106, 8106, 1, [8042, 921])
            (Node Leaf (8107, 8107, 1, [8043, 921]) Leaf))))
         (8108, 8108, 1, [8044, 921])
         (Node
          (Node
           (Node
            (Node
             (Node Leaf (8109, 8109, 1, [8045, 921]) Leaf)
             (8110, 8110, 1, [8046, 921])
             Leaf)
            (8111, 8111, 1, [8047, 921])
            (Node Leaf (8112, 8113, 1, [8120]) Leaf))
           (8114, 8114, 1, [8122, 921])
           (Node
            (Node Leaf (8115, 8115, 1, [913, 921]) Leaf)
            (8116, 8116, 1, [902, 921])
            (Node Leaf (8118, 8118, 1, [913, 834]) Leaf)))
          (8119, 8119, 1, [913, 834, 921])
          (Node
           (Node
            (Node
             (Node Leaf (8124, 8124, 1, [913, 921]) Leaf)
             (8126, 8126, 1, [921])
             Leaf)
            (8130, 8130, 1, [8138, 921])
            (Node Leaf (8131, 8131, 1, [919, 921]) Leaf))
           (8132, 8132, 1, [905, 921])
           (Node
            (Node Leaf (8134, 8134, 1, [919, 834]) Leaf)
            (8135, 8135, 1, [919, 834, 921])
            (Node Leaf (8140, 8140, 1, [919, 921]) Leaf))))))
       (8144, 8145, 1, [8152])
       (Node
        (Node
         (Node
          (Node
           (Node
            (Node
             (Node Leaf (8146, 8146, 1, [921, 776, 768]) Leaf)
             (8147, 8147, 1, [921, 776, 769])
             Leaf)
            (8150, 8150, 1, [921, 834])
            (Node Leaf (8151, 8151, 1, [921, 776, 834]) Leaf))
           (8160, 8161, 1, [8168])
           (Node
            (Node
             (Node Leaf (8162, 8162, 1, [933, 776, 768]) Leaf)
             (8163, 8163, 1, [933, 776, 769])
             Leaf)
            (8164, 8164, 1, [929, 787])
            (Node Leaf (8165, 8165, 1, [8172]) Leaf)))
          (8166, 8166, 1, [933, 834])
          (Node
           (Node
            (Node
             (Node Leaf (8167, 8167, 1, [933, 776, 834]) Leaf)
             (8178, 8178, 1, [8186, 921])
             Leaf)
            (8179, 8179, 1, [937, 921])
            (Node Leaf (8180, 8180, 1, [911, 921]) Leaf))
           (8182, 8182, 1, [937, 834])
           (Node
            (Node Leaf (8183, 8183, 1, [937, 834, 921]) Leaf)
            (8188, 8188, 1, [937, 921])
            (Node Leaf (8526, 8526, 1, [8498]) Leaf))))
         (8560, 8575, 1, [8544])
         (Node
          (Node
           (Node
            (Node
             (Node Leaf (8580, 8580, 1, [8579]) Leaf)
             (9424, 9449, 1, [9398])
             Leaf)
            (11312, 11359, 1, [11264])
            (Node Leaf (11361, 11361, 1, [11360]) Leaf))
           (11365, 11365, 1, [570])
           (Node
            (Node
             (Node Leaf (11366, 11366, 1, [574]) Leaf)
             (11368, 11372, 2, [11367])
             Leaf)
            (11379, 11379, 1, [11378])
            (Node Leaf (11382, 11382, 1, [11381]) Leaf)))
          (11393, 11491, 2, [11392])
          (Node
           (Node
            (Node
             (Node Leaf (11500, 11502, 2, [11499]) Leaf)
             (11507, 11507, 1, [11506])
             Leaf)
            (11520, 11557, 1, [4256])
            (Node Leaf (11559, 11559, 1, [4295]) Leaf))
           (11565, 11565, 1, [4301])
           (Node
            (Node Leaf (42561, 42605, 2, [42560]) Leaf)
            (42625, 42651, 2, [42624])
            (Node Leaf (42787, 42799, 2, [42786]) Leaf)))))
        (42803, 42863, 2, [42802])
        (Node
         (Node
          (Node
           (Node
            (Node
             (Node Leaf (42874, 42876, 2, [42873]) Leaf)
             (42879, 42887, 2, [42878])
             Leaf)
            (42892, 42892, 1, [42891])
            (Node Leaf (42897, 42899, 2, [42896]) Leaf))
           (42900, 42900, 1, [42948])
           (Node
            (Node
             (Node Leaf (42903, 42921, 2, [42902]) Leaf)
             (42933, 42947, 2, [42932])
             Leaf)
            (42952, 42954, 2, [42951])
            (Node Leaf (42961, 42961, 1, [42960]) Leaf)))
          (42967, 42969, 2, [42966])
          (Node
           (Node
            (Node
             (Node Leaf (42998, 42998, 1, [42997]) Leaf)
             (43859, 43859, 1, [42931])
             Leaf)
            (43888, 43967, 1, [5024])
            (Node Leaf (64256, 64256, 1, [70, 70]) Leaf))
           (64257, 64257, 1, [70, 73])
           (Node
            (Node Leaf (64258, 64258, 1, [70, 76]) Leaf)
            (64259, 64259, 1, [70, 70, 73])
            (Node Leaf (64260, 64260, 1, [70, 70, 76]) Leaf))))
         (64261, 64261, 1, [83, 84])
         (Node
          (Node
           (Node
            (Node
             (Node Leaf (64262, 64262, 1, [83, 84]) Leaf)
             (64275, 64275, 1, [1348, 1350])
             Leaf)
            (64276, 64276, 1, [1348, 1333])
            (Node Leaf (64277, 64277, 1, [1348, 1339]) Leaf))
           (64278, 64278, 1, [1358, 1350])
           (Node
            (Node Leaf (64279, 64279, 1, [1348, 1341]) Leaf)
            (65345, 65370, 1, [65313])
            (Node Leaf (66600, 66639, 1, [66560]) Leaf)))
          (66776, 66811, 1, [66736])
          (Node
           (Node
            (Node
             (Node Leaf (66967, 66977, 1, [66928]) Leaf)
             (66979, 66993, 1, [66940])
             Leaf)
            (66995, 67001, 1, [66956])
            (Node Leaf (67003, 67004, 1, [66964]) Leaf))
           (68800, 68850, 1, [68736])
           (Node
            (Node Leaf (71872, 71903, 1, [71840]) Leaf)
            (93792, 93823, 1, [93760])
            (Node Leaf (125218, 125251, 1, [125184]) Leaf))))))))"

fun treeLookup :: "caseTree \<Rightarrow> int \<Rightarrow> caseEntry option" where
  "treeLookup Leaf c = None"
| "treeLookup (Node l e r) c =
     (case e of (lo, hi, step, out) \<Rightarrow>
        if c < lo then treeLookup l c
        else if hi < c then treeLookup r c
        else if inEntry c e then Some e else None)"

fun inorder :: "caseTree \<Rightarrow> caseEntry list" where
  "inorder Leaf = []"
| "inorder (Node l e r) = inorder l @ e # inorder r"

fun bounded :: "caseTree \<Rightarrow> int \<Rightarrow> int \<Rightarrow> bool" where
  "bounded Leaf a b = True"
| "bounded (Node l e r) a b =
     (case e of (lo, hi, step, out) \<Rightarrow>
        a < lo \<and> lo \<le> hi \<and> hi < b \<and> bounded l a lo \<and> bounded r hi b)"


text \<open>The code points of an entry, listed.\<close>

definition entryKeys :: "caseEntry \<Rightarrow> int list" where
  "entryKeys e = (case e of (lo, hi, step, out) \<Rightarrow>
                    map (\<lambda>i. lo + i * step) [0 .. (hi - lo) div step])"

definition isSurrogate :: "int \<Rightarrow> bool" where
  "isSurrogate c = (55296 \<le> c \<and> c \<le> 57343)"

text \<open>
  What the proofs need of a case mapping \<open>up\<close>: a code point is mapped to itself, or
  it is neither white space nor a surrogate and is mapped to a non-empty sequence of
  code points that are mapped to themselves and are neither white space nor surrogates.
\<close>

definition inertOutput :: "(int \<Rightarrow> int list) \<Rightarrow> int \<Rightarrow> bool" where
  "inertOutput up d =
     (up d = [d] \<and> \<not> isWhiteSpace d \<and> \<not> isSurrogate d \<and> 0 \<le> d \<and> d < 1114112)"

definition goodKey :: "(int \<Rightarrow> int list) \<Rightarrow> int \<Rightarrow> bool" where
  "goodKey up c = (\<not> isWhiteSpace c \<and> \<not> isSurrogate c \<and> up c \<noteq> []
                   \<and> list_all (inertOutput up) (up c))"

definition caseTableOK :: "(int \<Rightarrow> int list) \<Rightarrow> bool" where
  "caseTableOK up = (\<forall>c. up c = [c] \<or> goodKey up c)"

definition entryGood :: "caseEntry \<Rightarrow> bool" where
  "entryGood e = ((case e of (lo, hi, step, out) \<Rightarrow> 0 < step)
                  \<and> list_all (goodKey toUppercase) (entryKeys e))"


text \<open>Well-formed lists of code units and of code points.\<close>

definition validCodeUnit :: "int \<Rightarrow> bool" where
  "validCodeUnit u = (0 \<le> u \<and> u \<le> 65535)"

definition validCodePoint :: "int \<Rightarrow> bool" where
  "validCodePoint c = (0 \<le> c \<and> c < 1114112)"

fun noPair :: "int list \<Rightarrow> bool" where
  "noPair (a # b # r) = (\<not> (isLeadingSurrogate a \<and> isTrailingSurrogate b) \<and> noPair (b # r))"
| "noPair [a] = True"
| "noPair [] = True"

definition upperUnits :: "(int \<Rightarrow> int list) \<Rightarrow> int list \<Rightarrow> int list" where
  "upperUnits up us = CodePointsToString (concat (map up (StringToCodePoints us)))"

section \<open>Data model (src/worker/src/types/database.ts, migrations)\<close>

text \<open>
  Transaction references are JavaScript strings (\<open>jsstring\<close>), since the code trims and
  uppercases them; every other text is only stored and compared and is a \<open>string\<close>.
  Timestamps are stored by the worker as ISO-8601 text produced by
  \<open>Date.toISOString()\<close> and read back with \<open>new Date(...)\<close>; the model keeps the number
  that \<open>getTime()\<close> returns (milliseconds since the epoch) as an \<open>int\<close>. Amounts are
  integer cents.
\<close>

datatype ReceiverStatus = active | disabled

record Receiver =
  phone :: string
  label :: string
  receiver_status :: ReceiverStatus
  receiver_notes :: "string option"
  receiver_created_at :: int

record Transaction =
  tx_id :: string
  trxid :: jsstring
  amount_cents :: int
  receiver_phone :: string
  sender_phone :: "string option"
  received_at :: int
  tx_created_at :: int

datatype TrackingStatus = pending | submitted_trx | verified | failed | expired | canceled

datatype VerificationMethod = auto | manual

text \<open>
  The failure reasons of verification.ts are template strings; the model keeps the template
  and the interpolated values.
\<close>

datatype FailureReason =
    TrxIDMismatch jsstring jsstring
  | AmountMismatch int int
  | ReceiverNotInOfferedList string "string list"
  | OutsideTimeWindow int int int
  | DuplicateTrxID string
  | NoTrackingSessionWithID string
  | UserEnteredTrxidIsNull
  | NoTransactionWithTrxID jsstring
  | NoTransactionWithID string
  | NoPendingSessionsWithTrxID jsstring

datatype Note = NoteText string | NoteReason FailureReason

text \<open>
  \<open>offered_receivers\<close> is a TEXT column holding a JSON array of phone numbers, read with
  \<open>JSON.parse\<close>. \<open>Some ps\<close> is a text that parses to the array \<open>ps\<close>; \<open>None\<close> is a
  text on which \<open>JSON.parse(...)\<close> or the following \<open>.includes(...)\<close> throws.
\<close>

record Tracking =
  tracking_id :: string
  item_code :: string
  payment_amount_cents :: int
  offered_receivers :: "string list option"
  user_entered_trxid :: "jsstring option"
  customer_info_json :: string
  form_data_json :: "string option"
  ticket_choice :: string
  verification_method :: VerificationMethod
  status :: TrackingStatus
  matched_transaction_id :: "string option"
  created_at :: int
  updated_at :: int
  expires_at :: int
  tracking_notes :: "Note option"

record FulfillmentData =
  f_tracking_id :: string
  f_transaction_id :: string
  f_customer_info :: string
  f_payment_amount_cents :: int
  f_item_code :: string
  f_ticket_choice :: string

text \<open>
  The state every operation works on: the three D1 tables, in row order, and the log of
  fulfillment e-mails that \<open>triggerFulfillment\<close> has written.
\<close>

record World =
  receivers_table :: "Receiver list"
  transactions_table :: "Transaction list"
  tracking_table :: "Tracking list"
  fulfillment_log :: "FulfillmentData list"

datatype error = UniqueConstraintFailed | ForeignKeyConstraintFailed | JsonParseError

section \<open>Database service (src/worker/src/services/db.ts)\<close>

text \<open>
  Every method that writes reads the clock for \<open>updated_at\<close>; the model passes the reading
  as \<open>now\<close>. \<open>ulid()\<close> is passed as the identifier it returns. A query with
  \<open>.first()\<close> is \<open>find\<close> on the table, one with \<open>.all()\<close> is \<open>filter\<close>.
\<close>

definition receivers_getActive :: "World \<Rightarrow> Receiver list" where
  "receivers_getActive w = filter (\<lambda>r. receiver_status r = active) (receivers_table w)"

definition receivers_getByPhone :: "string \<Rightarrow> World \<Rightarrow> Receiver option" where
  "receivers_getByPhone p w = find (\<lambda>r. phone r = p) (receivers_table w)"

definition isValidReceiver :: "string \<Rightarrow> World \<Rightarrow> bool" where
  "isValidReceiver p w = (receivers_getByPhone p w \<noteq> None)"

definition transactions_getByTrxID :: "jsstring \<Rightarrow> World \<Rightarrow> Transaction option" where
  "transactions_getByTrxID x w = find (\<lambda>t. trxid t = x) (transactions_table w)"

definition transactions_getByID :: "string \<Rightarrow> World \<Rightarrow> Transaction option" where
  "transactions_getByID i w = find (\<lambda>t. tx_id t = i) (transactions_table w)"

text \<open>
  The INSERT of \<open>TransactionsService.create\<close> under the constraints of
  migrations/0002: \<open>id\<close> is the primary key, \<open>trxid\<close> is UNIQUE, and
  \<open>receiver_phone\<close> references \<open>receivers_table(phone)\<close>.
\<close>

definition insertTransaction :: "Transaction \<Rightarrow> World \<Rightarrow> error + World" where
  "insertTransaction t w =
     (if tx_id t \<in> set (map tx_id (transactions_table w))
         \<or> trxid t \<in> set (map trxid (transactions_table w))
      then Inl UniqueConstraintFailed
      else if receiver_phone t \<notin> set (map phone (receivers_table w))
      then Inl ForeignKeyConstraintFailed
      else Inr (w\<lparr>transactions_table := transactions_table w @ [t]\<rparr>))"

record NewTransaction =
  d_trxid :: jsstring
  d_amount_cents :: int
  d_receiver_phone :: string
  d_sender_phone :: string
  d_received_at :: int

definition transactions_create ::
  "NewTransaction \<Rightarrow> string \<Rightarrow> int \<Rightarrow> World \<Rightarrow> (error + (Transaction \<times> bool)) \<times> World" where
  "transactions_create d ident now w =
     (let transaction = \<lparr>tx_id = ident, trxid = d_trxid d, amount_cents = d_amount_cents d,
                          receiver_phone = d_receiver_phone d,
                          sender_phone = Some (d_sender_phone d),
                          received_at = d_received_at d, tx_created_at = now\<rparr>
      in case insertTransaction transaction w of
           Inr w' \<Rightarrow> (Inr (transaction, True), w')
         | Inl err \<Rightarrow>
             (if err = UniqueConstraintFailed
              then (case transactions_getByTrxID (d_trxid d) w of
                      Some existing \<Rightarrow> (Inr (existing, False), w)
                    | None \<Rightarrow> (Inl err, w))
              else (Inl err, w)))"

record NewTracking =
  n_item_code :: string
  n_payment_amount_cents :: int
  n_offered_receivers :: "string list"
  n_customer_info :: string
  n_form_data :: "string option"
  n_ticket_choice :: string
  n_verification_method :: "VerificationMethod option"

definition tracking_create ::
  "NewTracking \<Rightarrow> string \<Rightarrow> int \<Rightarrow> World \<Rightarrow> (error + Tracking) \<times> World" where
  "tracking_create d ident now w =
     (let tracking = \<lparr>tracking_id = ident, item_code = n_item_code d,
                       payment_amount_cents = n_payment_amount_cents d,
                       offered_receivers = Some (n_offered_receivers d),
                       user_entered_trxid = None,
                       customer_info_json = n_customer_info d,
                       form_data_json =
                         Some (case n_form_data d of None \<Rightarrow> ''{}'' | Some f \<Rightarrow> f),
                       ticket_choice = n_ticket_choice d,
                       verification_method =
                         (case n_verification_method d of None \<Rightarrow> auto | Some m \<Rightarrow> m),
                       status = pending, matched_transaction_id = None,
                       created_at = now, updated_at = now,
                       expires_at = now + 60 * 60 * 1000,
                       tracking_notes = None\<rparr>
      in if ident \<in> set (map tracking_id (tracking_table w))
         then (Inl UniqueConstraintFailed, w)
         else (Inr tracking, w\<lparr>tracking_table := tracking_table w @ [tracking]\<rparr>))"

definition tracking_getByID :: "string \<Rightarrow> World \<Rightarrow> Tracking option" where
  "tracking_getByID i w = find (\<lambda>t. tracking_id t = i) (tracking_table w)"

definition tracking_submitTrxID :: "string \<Rightarrow> jsstring \<Rightarrow> int \<Rightarrow> World \<Rightarrow> World" where
  "tracking_submitTrxID i x now w =
     w\<lparr>tracking_table :=
         map (\<lambda>t. if tracking_id t = i
                   then t\<lparr>user_entered_trxid := Some x, status := submitted_trx,
                           updated_at := now\<rparr>
                   else t)
             (tracking_table w)\<rparr>"

text \<open>\<open>value || null\<close>: an absent or empty string is stored as NULL.\<close>

definition or_null :: "string option \<Rightarrow> string option" where
  "or_null v = (case v of None \<Rightarrow> None | Some s \<Rightarrow> if s = [] then None else Some s)"

definition note_or_null :: "Note option \<Rightarrow> Note option" where
  "note_or_null v =
     (case v of None \<Rightarrow> None
      | Some (NoteText s) \<Rightarrow> if s = [] then None else Some (NoteText s)
      | Some (NoteReason r) \<Rightarrow> Some (NoteReason r))"

definition tracking_updateStatus ::
  "string \<Rightarrow> TrackingStatus \<Rightarrow> string option \<Rightarrow> Note option \<Rightarrow> int \<Rightarrow> World \<Rightarrow> World" where
  "tracking_updateStatus i st m n now w =
     w\<lparr>tracking_table :=
         map (\<lambda>t. if tracking_id t = i
                   then t\<lparr>status := st, updated_at := now,
                           matched_transaction_id := or_null m,
                           tracking_notes := note_or_null n\<rparr>
                   else t)
             (tracking_table w)\<rparr>"

definition tracking_findByTrxID :: "jsstring \<Rightarrow> World \<Rightarrow> Tracking list" where
  "tracking_findByTrxID x w =
     filter (\<lambda>t. user_entered_trxid t = Some x
                  \<and> (status t = pending \<or> status t = submitted_trx))
            (tracking_table w)"

definition findExpired :: "int \<Rightarrow> World \<Rightarrow> Tracking list" where
  "findExpired now w =
     filter (\<lambda>t. (status t = pending \<or> status t = submitted_trx) \<and> expires_at t < now)
            (tracking_table w)"

definition findPendingVerification :: "World \<Rightarrow> Tracking list" where
  "findPendingVerification w =
     filter (\<lambda>t. status t = submitted_trx \<and> user_entered_trxid t \<noteq> None)
            (tracking_table w)"

definition expireSessions :: "string list \<Rightarrow> int \<Rightarrow> World \<Rightarrow> World" where
  "expireSessions tracking_ids now w =
     (if tracking_ids = [] then w
      else w\<lparr>tracking_table :=
               map (\<lambda>t. if tracking_id t \<in> set tracking_ids
                         then t\<lparr>status := expired, updated_at := now\<rparr>
                         else t)
                   (tracking_table w)\<rparr>)"

section \<open>Verification service (src/worker/src/services/verification.ts)\<close>

record VerificationResult =
  success :: bool
  result_status :: TrackingStatus
  message :: string
  result_matched_transaction_id :: "string option"
  failure_reason :: "FailureReason option"

definition verifyPayment :: "Tracking \<Rightarrow> Transaction \<Rightarrow> World \<Rightarrow> error + VerificationResult" where
  "verifyPayment tracking transaction w =
     (let trackingTrxID =
            normalizeTrxID (case user_entered_trxid tracking of None \<Rightarrow> [] | Some x \<Rightarrow> x);
          transactionTrxID = normalizeTrxID (trxid transaction)
      in if trackingTrxID \<noteq> transactionTrxID
         then Inr \<lparr>success = False, result_status = failed,
                   message = ''Transaction ID does not match'',
                   result_matched_transaction_id = None,
                   failure_reason = Some (TrxIDMismatch trackingTrxID transactionTrxID)\<rparr>
         else if payment_amount_cents tracking \<noteq> amount_cents transaction
         then Inr \<lparr>success = False, result_status = failed,
                   message = ''Payment amount does not match'',
                   result_matched_transaction_id = None,
                   failure_reason = Some (AmountMismatch (payment_amount_cents tracking)
                                                         (amount_cents transaction))\<rparr>
         else (case offered_receivers tracking of
                 None \<Rightarrow> Inl JsonParseError
               | Some offeredReceivers \<Rightarrow>
                   if receiver_phone transaction \<notin> set offeredReceivers
                   then Inr \<lparr>success = False, result_status = failed,
                             message = ''Payment sent to wrong number'',
                             result_matched_transaction_id = None,
                             failure_reason =
                               Some (ReceiverNotInOfferedList (receiver_phone transaction)
                                                              offeredReceivers)\<rparr>
                   else
                     (let earliestAllowed = created_at tracking - 60 * 60 * 1000;
                          latestAllowed = expires_at tracking + 15 * 60 * 1000
                      in if received_at transaction < earliestAllowed
                            \<or> received_at transaction > latestAllowed
                         then Inr \<lparr>success = False, result_status = failed,
                                   message = ''Payment outside valid time window'',
                                   result_matched_transaction_id = None,
                                   failure_reason =
                                     Some (OutsideTimeWindow (received_at transaction)
                                             earliestAllowed latestAllowed)\<rparr>
                         else
                           (let existingMatch = tracking_findByTrxID transactionTrxID w
                            in case find (\<lambda>t. status t = verified
                                               \<and> tracking_id t \<noteq> tracking_id tracking)
                                         existingMatch of
                                 Some alreadyMatched \<Rightarrow>
                                   Inr \<lparr>success = False, result_status = failed,
                                        message = ''This Transaction ID has already been used'',
                                        result_matched_transaction_id = None,
                                        failure_reason =
                                          Some (DuplicateTrxID (tracking_id alreadyMatched))\<rparr>
                               | None \<Rightarrow>
                                   Inr \<lparr>success = True, result_status = verified,
                                        message = ''Payment verified successfully'',
                                        result_matched_transaction_id =
                                          Some (tx_id transaction),
                                        failure_reason = None\<rparr>))))"

text \<open>
  The status write shared by \<open>attemptVerification\<close> and \<open>verifyIncomingTransaction\<close>:
  verified with the matched transaction, failed with the reason, or no write.
\<close>

definition applyResult :: "string \<Rightarrow> VerificationResult \<Rightarrow> int \<Rightarrow> World \<Rightarrow> World" where
  "applyResult trackingId result now w =
     (if success result
      then tracking_updateStatus trackingId verified (result_matched_transaction_id result)
             (Some (NoteText ''Verified successfully'')) now w
      else if result_status result = failed
      then tracking_updateStatus trackingId failed None
             (map_option NoteReason (failure_reason result)) now w
      else w)"

definition attemptVerification ::
  "string \<Rightarrow> int \<Rightarrow> World \<Rightarrow> (error + VerificationResult) \<times> World" where
  "attemptVerification trackingId now w =
     (case tracking_getByID trackingId w of
        None \<Rightarrow>
          (Inr \<lparr>success = False, result_status = failed,
                message = ''Tracking session not found'',
                result_matched_transaction_id = None,
                failure_reason = Some (NoTrackingSessionWithID trackingId)\<rparr>, w)
      | Some tracking \<Rightarrow>
          if user_entered_trxid tracking = None \<or> user_entered_trxid tracking = Some []
          then (Inr \<lparr>success = False, result_status = pending,
                     message = ''No Transaction ID submitted yet'',
                     result_matched_transaction_id = None,
                     failure_reason = Some UserEnteredTrxidIsNull\<rparr>, w)
          else if status tracking = verified
          then (Inr \<lparr>success = True, result_status = verified,
                     message = ''Already verified'',
                     result_matched_transaction_id = or_null (matched_transaction_id tracking),
                     failure_reason = None\<rparr>, w)
          else
            (let normalizedTrxID =
                   normalizeTrxID (case user_entered_trxid tracking of
                                     None \<Rightarrow> [] | Some x \<Rightarrow> x)
             in case transactions_getByTrxID normalizedTrxID w of
                  None \<Rightarrow>
                    (Inr \<lparr>success = False, result_status = pending,
                          message = ''Transaction not found yet'',
                          result_matched_transaction_id = None,
                          failure_reason = Some (NoTransactionWithTrxID normalizedTrxID)\<rparr>, w)
                | Some transaction \<Rightarrow>
                    (case verifyPayment tracking transaction w of
                       Inl err \<Rightarrow> (Inl err, w)
                     | Inr result \<Rightarrow> (Inr result, applyResult trackingId result now w))))"

fun verifySessions ::
  "Transaction \<Rightarrow> int \<Rightarrow> Tracking list \<Rightarrow> VerificationResult list \<Rightarrow> World
     \<Rightarrow> (error + VerificationResult list) \<times> World" where
  "verifySessions transaction now [] results w = (Inr results, w)"
| "verifySessions transaction now (tracking # rest) results w =
     (case verifyPayment tracking transaction w of
        Inl err \<Rightarrow> (Inl err, w)
      | Inr result \<Rightarrow>
          verifySessions transaction now rest (results @ [result])
            (applyResult (tracking_id tracking) result now w))"

definition verifyIncomingTransaction ::
  "string \<Rightarrow> int \<Rightarrow> World \<Rightarrow> (error + VerificationResult list) \<times> World" where
  "verifyIncomingTransaction transactionId now w =
     (case transactions_getByID transactionId w of
        None \<Rightarrow>
          (Inr [\<lparr>success = False, result_status = failed,
                 message = ''Transaction not found'',
                 result_matched_transaction_id = None,
                 failure_reason = Some (NoTransactionWithID transactionId)\<rparr>], w)
      | Some transaction \<Rightarrow>
          (let normalizedTrxID = normalizeTrxID (trxid transaction);
               pendingSessions = tracking_findByTrxID normalizedTrxID w
           in if pendingSessions = []
              then (Inr [\<lparr>success = False, result_status = pending,
                          message = ''No matching tracking sessions found'',
                          result_matched_transaction_id = None,
                          failure_reason =
                            Some (NoPendingSessionsWithTrxID normalizedTrxID)\<rparr>], w)
              else verifySessions transaction now pendingSessions [] w))"

section \<open>Fulfillment service (src/worker/src/services/fulfillment.ts)\<close>

record FulfillmentResult =
  fulfillment_success :: bool
  fulfillment_token :: "string option"
  ticket_url :: "string option"
  fulfillment_error :: "string option"

text \<open>
  What the body of the \<open>try\<close> of \<open>triggerFulfillment\<close> meets: it draws a token (a
  fresh \<open>ulid()\<close>) and runs to its end, or something is thrown, an \<open>Error\<close> with its
  message or another value.
\<close>

datatype Thrown = ThrownError string | ThrownOther

datatype TryOutcome = Completed string | Threw Thrown

text \<open>
  \<open>triggerFulfillment\<close> writes the e-mail to the log and returns the token and the ticket
  URL; what is thrown inside the \<open>try\<close> is caught and returned as a result without
  success, with \<open>error.message\<close> for an \<open>Error\<close> and "Unknown error" otherwise. It
  never throws.
\<close>

definition triggerFulfillment ::
  "FulfillmentData \<Rightarrow> TryOutcome \<Rightarrow> World \<Rightarrow> FulfillmentResult \<times> World" where
  "triggerFulfillment d outcome w =
     (case outcome of
        Completed token \<Rightarrow>
          (\<lparr>fulfillment_success = True, fulfillment_token = Some token,
            ticket_url = Some (''https://tickets.example.com/generate/'' @ token),
            fulfillment_error = None\<rparr>,
           w\<lparr>fulfillment_log := fulfillment_log w @ [d]\<rparr>)
      | Threw thrown \<Rightarrow>
          (\<lparr>fulfillment_success = False, fulfillment_token = None, ticket_url = None,
            fulfillment_error =
              Some (case thrown of ThrownError m \<Rightarrow> m | ThrownOther \<Rightarrow> ''Unknown error'')\<rparr>,
           w))"

section \<open>Sweep (src/worker/src/scheduled/cron.ts)\<close>

record SweepCounts =
  verifiedCount :: nat
  failedCount :: nat
  stillPendingCount :: nat

text \<open>
  The \<open>for\<close> loop of the retry phase: the body is a \<open>try\<close>/\<open>catch\<close>, so an exception of
  \<open>attemptVerification\<close> (\<open>Inl\<close>) is caught, counted as failed, and the loop goes on.
\<close>

fun retrySessions :: "int \<Rightarrow> Tracking list \<Rightarrow> SweepCounts \<Rightarrow> World \<Rightarrow> SweepCounts \<times> World" where
  "retrySessions now [] c w = (c, w)"
| "retrySessions now (session # rest) c w =
     (case attemptVerification (tracking_id session) now w of
        (Inr result, w') \<Rightarrow>
          if success result
          then retrySessions now rest (c\<lparr>verifiedCount := verifiedCount c + 1\<rparr>) w'
          else if result_status result = failed
          then retrySessions now rest (c\<lparr>failedCount := failedCount c + 1\<rparr>) w'
          else retrySessions now rest (c\<lparr>stillPendingCount := stillPendingCount c + 1\<rparr>) w'
      | (Inl err, w') \<Rightarrow>
          retrySessions now rest (c\<lparr>failedCount := failedCount c + 1\<rparr>) w')"

record SweepReport =
  report_expired :: nat
  report_verified :: nat
  report_failed :: nat
  report_still_pending :: nat
  report_total_processed :: nat

definition scheduledHandler :: "int \<Rightarrow> World \<Rightarrow> SweepReport \<times> World" where
  "scheduledHandler now w =
     (let expiredSessions = findExpired now w;
          w1 = (if length expiredSessions > 0
                then expireSessions (map tracking_id expiredSessions) now w
                else w);
          pendingSessions = findPendingVerification w1;
          (c, w2) = retrySessions now pendingSessions
                      \<lparr>verifiedCount = 0, failedCount = 0, stillPendingCount = 0\<rparr> w1
      in (\<lparr>report_expired = length expiredSessions, report_verified = verifiedCount c,
            report_failed = failedCount c, report_still_pending = stillPendingCount c,
            report_total_processed = length pendingSessions\<rparr>, w2))"

section \<open>Submit route (POST /bkash-personal/:trackingId/submit-trx)\<close>

datatype SubmitResponse =
    BadRequest string
  | NotFound
  | SessionExpired
  | StatusVerified
  | StatusSubmitted
  | InternalError

text \<open>
  The request carries the path parameter and the \<open>trxid\<close> of the body (\<open>None\<close> when the
  body has none or it is not a string). An exception inside the handler is caught and
  answered with status 500.
\<close>

definition submitTrxID :: "string \<Rightarrow> jsstring option \<Rightarrow> int \<Rightarrow> World \<Rightarrow> SubmitResponse \<times> World" where
  "submitTrxID trackingId body_trxid now w =
     (if trackingId = [] then (BadRequest ''Invalid tracking ID'', w)
      else case body_trxid of
             None \<Rightarrow> (BadRequest ''TrxID is required'', w)
           | Some x \<Rightarrow>
               if x = [] then (BadRequest ''TrxID is required'', w)
               else
                 (let normalizedTrxID = normalizeTrxID x
                  in if normalizedTrxID = [] then (BadRequest ''Invalid TrxID format'', w)
                     else case tracking_getByID trackingId w of
                            None \<Rightarrow> (NotFound, w)
                          | Some tracking \<Rightarrow>
                              if now > expires_at tracking then (SessionExpired, w)
                              else if status tracking = verified then (StatusVerified, w)
                              else if user_entered_trxid tracking \<noteq> None
                                      \<and> user_entered_trxid tracking \<noteq> Some []
                                      \<and> status tracking = submitted_trx
                              then (StatusSubmitted, w)
                              else
                                (case attemptVerification trackingId now
                                        (tracking_submitTrxID trackingId normalizedTrxID now w) of
                                   (Inl err, w') \<Rightarrow> (InternalError, w')
                                 | (Inr verificationResult, w') \<Rightarrow>
                                     if success verificationResult then (StatusVerified, w')
                                     else (StatusSubmitted, w'))))"

section \<open>Predicates used in the statements\<close>

text \<open>
  How far \<open>verifyPayment\<close> got, read off its verdict: rejected by the time window rule, or
  past it (the verdict is then the one of the duplicate check: accepted, or rejected as a
  duplicate).
\<close>

definition rejectedOutsideWindow :: "error + VerificationResult \<Rightarrow> bool" where
  "rejectedOutsideWindow res =
     (case res of
        Inr r \<Rightarrow> \<not> success r \<and> result_status r = failed
                 \<and> message r = ''Payment outside valid time window''
      | Inl e \<Rightarrow> False)"

definition passedTimeWindow :: "error + VerificationResult \<Rightarrow> bool" where
  "passedTimeWindow res =
     (case res of
        Inr r \<Rightarrow> message r = ''Payment verified successfully''
                 \<or> message r = ''This Transaction ID has already been used''
      | Inl e \<Rightarrow> False)"

text \<open>
  The exclusivity rule in the words of the specification (rule 5): some session other than
  the current one is verified and its resolved receipt reference is this receipt.
\<close>

definition claimedByOther :: "Tracking \<Rightarrow> Transaction \<Rightarrow> World \<Rightarrow> bool" where
  "claimedByOther tracking transaction w =
     list_ex (\<lambda>t. tracking_id t \<noteq> tracking_id tracking \<and> status t = verified
                   \<and> matched_transaction_id t = Some (tx_id transaction))
             (tracking_table w)"

text \<open>
  Frame of an operation on the tracking table: the rows keep their positions and
  identifiers, and a row whose identifier is outside \<open>S\<close> is unchanged.
\<close>

definition only_touches :: "string set \<Rightarrow> World \<Rightarrow> World \<Rightarrow> bool" where
  "only_touches S w w' =
     list_all2 (\<lambda>a b. tracking_id a = tracking_id b \<and> (tracking_id a \<notin> S \<longrightarrow> a = b))
               (tracking_table w) (tracking_table w')"

text \<open>The identifiers of the sessions that still await a verdict.\<close>

definition open_ids :: "World \<Rightarrow> string set" where
  "open_ids w =
     tracking_id ` {t \<in> set (tracking_table w). status t = pending \<or> status t = submitted_trx}"

definition terminal :: "TrackingStatus \<Rightarrow> bool" where
  "terminal st = (st = verified \<or> st = failed \<or> st = expired \<or> st = canceled)"

text \<open>
  The states the code can be in: the store starts with its receivers and no rows, and
  changes only through the operations of the worker. A receipt is stored with the
  reference that \<open>parseTrxID\<close> returns, which is \<open>match[1].trim().toUpperCase()\<close>.
\<close>

inductive reachable :: "World \<Rightarrow> bool" where
  initial:
    "reachable \<lparr>receivers_table = rs, transactions_table = [], tracking_table = [],
                 fulfillment_log = []\<rparr>"
| session_created:
    "reachable w \<Longrightarrow> reachable (snd (tracking_create d ident now w))"
| receipt_ingested:
    "reachable w \<Longrightarrow> d_trxid d = normalizeTrxID x
     \<Longrightarrow> reachable (snd (transactions_create d ident now w))"
| reference_submitted:
    "reachable w \<Longrightarrow> reachable (snd (submitTrxID i b now w))"
| verification_attempted:
    "reachable w \<Longrightarrow> reachable (snd (attemptVerification i now w))"
| receipt_verified:
    "reachable w \<Longrightarrow> reachable (snd (verifyIncomingTransaction x now w))"
| swept:
    "reachable w \<Longrightarrow> reachable (snd (scheduledHandler now w))"

text \<open>
  What holds in every such state: \<open>tracking_id\<close> is a key, stored references are
  normalised, and the store holds a receipt for the reference of every verified session.
\<close>

definition hasReceipt :: "Tracking \<Rightarrow> World \<Rightarrow> bool" where
  "hasReceipt t w =
     (transactions_getByTrxID
        (normalizeTrxID (case user_entered_trxid t of None \<Rightarrow> [] | Some x \<Rightarrow> x)) w \<noteq> None)"

definition store_invariant :: "World \<Rightarrow> bool" where
  "store_invariant w =
     (distinct (map tracking_id (tracking_table w))
      \<and> (\<forall>tx \<in> set (transactions_table w). normalizeTrxID (trxid tx) = trxid tx)
      \<and> (\<forall>t \<in> set (tracking_table w). status t = verified \<longrightarrow> hasReceipt t w))"

section \<open>Concrete states\<close>

definition receiver_R1 :: Receiver where
  "receiver_R1 = \<lparr>phone = ''01785863769'', label = ''Primary Payment Number'',
                   receiver_status = active, receiver_notes = None, receiver_created_at = 0\<rparr>"

definition receipt_ABC :: Transaction where
  "receipt_ABC = \<lparr>tx_id = ''TX1'', trxid = js ''ABC123'', amount_cents = 50000,
                   receiver_phone = ''01785863769'', sender_phone = Some ''01533817247'',
                   received_at = 1000000, tx_created_at = 1000500\<rparr>"

definition session_T1 :: Tracking where
  "session_T1 = \<lparr>tracking_id = ''T1'', item_code = ''TICKET_VIP'',
                  payment_amount_cents = 50000,
                  offered_receivers = Some [''01785863769''],
                  user_entered_trxid = Some (js ''ABC123''),
                  customer_info_json = ''{}'', form_data_json = Some ''{}'',
                  ticket_choice = ''VIP'', verification_method = auto,
                  status = submitted_trx, matched_transaction_id = None,
                  created_at = 900000, updated_at = 950000, expires_at = 4500000,
                  tracking_notes = None\<rparr>"

definition session_T2 :: Tracking where
  "session_T2 = session_T1\<lparr>tracking_id := ''T2''\<rparr>"

text \<open>Two sessions that declare the same reference, and the one receipt that matches both.\<close>

definition world_two_sessions :: World where
  "world_two_sessions =
     \<lparr>receivers_table = [receiver_R1], transactions_table = [receipt_ABC],
      tracking_table = [session_T1, session_T2], fulfillment_log = []\<rparr>"

text \<open>The same state after \<open>T1\<close> has been verified against the receipt.\<close>

definition session_T1_verified :: Tracking where
  "session_T1_verified =
     session_T1\<lparr>status := verified, updated_at := 1001000,
                 matched_transaction_id := Some ''TX1'',
                 tracking_notes := Some (NoteText ''Verified successfully'')\<rparr>"

definition world_T1_verified :: World where
  "world_T1_verified =
     \<lparr>receivers_table = [receiver_R1], transactions_table = [receipt_ABC],
      tracking_table = [session_T1_verified, session_T2], fulfillment_log = []\<rparr>"

text \<open>
  A session that failed on the amount of another receipt, still inside its validity
  window, next to the receipt \<open>ABC123\<close>.
\<close>

definition session_T3_failed :: Tracking where
  "session_T3_failed =
     session_T1\<lparr>tracking_id := ''T3'', user_entered_trxid := Some (js ''XYZ999''),
                 status := failed,
                 tracking_notes := Some (NoteReason (AmountMismatch 50000 20000))\<rparr>"

definition world_failed_session :: World where
  "world_failed_session =
     \<lparr>receivers_table = [receiver_R1], transactions_table = [receipt_ABC],
      tracking_table = [session_T3_failed], fulfillment_log = []\<rparr>"

text \<open>
  A session whose \<open>offered_receivers\<close> text does not parse, before a session that
  verifies.
\<close>

definition session_T0_broken :: Tracking where
  "session_T0_broken = session_T1\<lparr>tracking_id := ''T0'', offered_receivers := None\<rparr>"

definition world_broken_session :: World where
  "world_broken_session =
     \<lparr>receivers_table = [receiver_R1], transactions_table = [receipt_ABC],
      tracking_table = [session_T0_broken, session_T1], fulfillment_log = []\<rparr>"

definition world_no_receipts :: World where
  "world_no_receipts =
     \<lparr>receivers_table = [receiver_R1], transactions_table = [],
      tracking_table = [session_T1], fulfillment_log = []\<rparr>"

text \<open>The store before any session, and the request that creates \<open>T1\<close>.\<close>

definition world_empty :: World where
  "world_empty =
     \<lparr>receivers_table = [receiver_R1], transactions_table = [], tracking_table = [],
      fulfillment_log = []\<rparr>"

definition new_session_T1 :: NewTracking where
  "new_session_T1 =
     \<lparr>n_item_code = ''TICKET_VIP'', n_payment_amount_cents = 50000,
      n_offered_receivers = [''01785863769''], n_customer_info = ''{}'',
      n_form_data = None, n_ticket_choice = ''VIP'', n_verification_method = None\<rparr>"

definition sms_ABC :: NewTransaction where
  "sms_ABC = \<lparr>d_trxid = js ''ABC123'', d_amount_cents = 50000,
               d_receiver_phone = ''01785863769'', d_sender_phone = ''01533817247'',
               d_received_at = 1000000\<rparr>"

section \<open>The case table and its search tree\<close>

lemma upperTable_inorder: "inorder upperTree = upperTable"
  by code_simp

lemma upperTree_bounded: "bounded upperTree (-1) 1114112"
  by code_simp

lemma bounded_entries:
  "bounded t a b \<Longrightarrow> (lo, hi, step, out) \<in> set (inorder t) \<Longrightarrow> a < lo \<and> lo \<le> hi \<and> hi < b"
proof (induction t arbitrary: a b)
  case Leaf
  then show ?case by simp
next
  case (Node l e r)
  obtain lo' hi' step' out' where e: "e = (lo', hi', step', out')" by (cases e) auto
  from Node.prems(1) have b: "a < lo'" "lo' \<le> hi'" "hi' < b" "bounded l a lo'" "bounded r hi' b"
    by (simp_all add: e)
  from Node.prems(2) consider "(lo, hi, step, out) \<in> set (inorder l)"
    | "(lo, hi, step, out) = e" | "(lo, hi, step, out) \<in> set (inorder r)"
    by auto
  then show ?case
  proof cases
    case 1
    from Node.IH(1) [OF b(4) 1] b show ?thesis by simp
  next
    case 2
    with b e show ?thesis by simp
  next
    case 3
    from Node.IH(2) [OF b(5) 3] b show ?thesis by simp
  qed
qed

lemma find_none_outside:
  assumes "\<And>lo hi step out. (lo, hi, step, out) \<in> set es \<Longrightarrow> c < lo \<or> hi < c"
  shows "find (inEntry c) es = None"
proof -
  have "\<not> inEntry c e" if "e \<in> set es" for e
  proof -
    obtain lo hi step out where e: "e = (lo, hi, step, out)" by (cases e) auto
    with assms that have "c < lo \<or> hi < c" by blast
    then show ?thesis by (auto simp add: inEntry_def e)
  qed
  then show ?thesis by (simp add: find_None_iff)
qed

lemma find_append2:
  "find P (xs @ ys) = (case find P xs of None \<Rightarrow> find P ys | Some x \<Rightarrow> Some x)"
  by (induction xs) auto

lemma treeLookup_find:
  "bounded t a b \<Longrightarrow> treeLookup t c = find (inEntry c) (inorder t)"
proof (induction t arbitrary: a b)
  case Leaf
  show ?case by simp
next
  case (Node l e r)
  obtain lo hi step out where e: "e = (lo, hi, step, out)" by (cases e) auto
  from Node.prems have b: "a < lo" "lo \<le> hi" "hi < b" "bounded l a lo" "bounded r hi b"
    by (simp_all add: e)
  have L: "treeLookup l c = find (inEntry c) (inorder l)" by (rule Node.IH(1) [OF b(4)])
  have R: "treeLookup r c = find (inEntry c) (inorder r)" by (rule Node.IH(2) [OF b(5)])
  have inl: "\<And>lo' hi' step' out'. (lo', hi', step', out') \<in> set (inorder l) \<Longrightarrow> hi' < lo"
    using bounded_entries [OF b(4)] by blast
  have inr: "\<And>lo' hi' step' out'. (lo', hi', step', out') \<in> set (inorder r) \<Longrightarrow> hi < lo'"
    using bounded_entries [OF b(5)] by blast
  show ?case
  proof (cases "c < lo")
    case True
    have "find (inEntry c) (inorder r) = None"
      by (rule find_none_outside) (use inr True b in force)
    moreover have "\<not> inEntry c e" using True by (simp add: inEntry_def e)
    ultimately show ?thesis
      using True L by (simp add: e [symmetric] find_append2 split: option.split) (simp add: e)
  next
    case False
    have nl: "find (inEntry c) (inorder l) = None"
      by (rule find_none_outside) (use inl False in force)
    show ?thesis
    proof (cases "hi < c")
      case True
      have "\<not> inEntry c e" using True by (simp add: inEntry_def e)
      then show ?thesis
        using True False R nl by (simp add: e [symmetric] find_append2) (simp add: e)
    next
      case False2: False
      have nr: "find (inEntry c) (inorder r) = None"
        by (rule find_none_outside) (use inr False2 in force)
      show ?thesis
        using False False2 nl nr by (simp add: e [symmetric] find_append2) (simp add: e)
    qed
  qed
qed

lemma toUppercase_tree [code]:
  "toUppercase c =
     (case treeLookup upperTree c of Some e \<Rightarrow> entryOutput e c | None \<Rightarrow> [c])"
  by (simp add: toUppercase_def treeLookup_find [OF upperTree_bounded] upperTable_inorder)


lemma upperTable_good: "list_all entryGood upperTable"
  by code_simp

lemma inEntry_keys:
  assumes "inEntry c (lo, hi, step, out)" and "0 < step"
  shows "c \<in> set (entryKeys (lo, hi, step, out))"
proof -
  from assms(1) have c: "lo \<le> c" "c \<le> hi" "(c - lo) mod step = 0"
    by (simp_all add: inEntry_def)
  define i where "i = (c - lo) div step"
  have "c - lo = i * step"
    using div_mult_mod_eq [of "c - lo" step] c(3) by (simp add: i_def)
  then have e: "c = lo + i * step" by simp
  have "0 \<le> i" using c(1) assms(2) by (simp add: i_def pos_imp_zdiv_nonneg_iff)
  moreover have "i \<le> (hi - lo) div step"
    unfolding i_def using c(2) assms(2) by (intro zdiv_mono1) simp_all
  ultimately have "i \<in> set [0 .. (hi - lo) div step]" by simp
  then show ?thesis using e by (auto simp add: entryKeys_def)
qed

lemma toUppercase_ok: "caseTableOK toUppercase"
  unfolding caseTableOK_def
proof
  fix c
  show "toUppercase c = [c] \<or> goodKey toUppercase c"
  proof (cases "find (inEntry c) upperTable")
    case None
    then show ?thesis by (simp add: toUppercase_def)
  next
    case (Some e)
    then have m: "e \<in> set upperTable" and i: "inEntry c e"
      by (auto simp add: find_Some_iff)
    obtain lo hi step out where e: "e = (lo, hi, step, out)" by (cases e) auto
    from upperTable_good m have g: "entryGood e" by (simp add: list_all_iff)
    then have "0 < step" by (simp add: entryGood_def e)
    with i have "c \<in> set (entryKeys e)" unfolding e by (rule inEntry_keys)
    with g have "goodKey toUppercase c" by (simp add: entryGood_def list_all_iff)
    then show ?thesis ..
  qed
qed

section \<open>UTF-16 coding\<close>

lemma noPair_Cons:
  "noPair (a # xs)
   = ((xs = [] \<or> \<not> (isLeadingSurrogate a \<and> isTrailingSurrogate (hd xs))) \<and> noPair xs)"
  by (cases xs) auto

lemma noPair_append:
  "noPair (xs @ ys)
   = (noPair xs \<and> noPair ys
      \<and> (xs = [] \<or> ys = [] \<or> \<not> (isLeadingSurrogate (last xs) \<and> isTrailingSurrogate (hd ys))))"
proof (induction xs)
  case Nil
  show ?case by simp
next
  case (Cons a xs)
  show ?case
  proof (cases xs)
    case Nil
    then show ?thesis by (cases ys) (auto simp add: noPair_Cons)
  next
    case (Cons b zs)
    with Cons.IH show ?thesis by (auto simp add: noPair_Cons)
  qed
qed

lemma noPair_no_surrogates:
  "\<forall>x \<in> set xs. \<not> isSurrogate x \<Longrightarrow> noPair xs"
proof (induction xs)
  case Nil
  show ?case by simp
next
  case (Cons a xs)
  then have "\<not> isLeadingSurrogate a"
    by (auto simp add: isSurrogate_def isLeadingSurrogate_def)
  with Cons show ?case by (simp add: noPair_Cons)
qed

lemma surrogate_kinds:
  "isLeadingSurrogate c \<Longrightarrow> isSurrogate c" "isTrailingSurrogate c \<Longrightarrow> isSurrogate c"
  by (auto simp add: isSurrogate_def isLeadingSurrogate_def isTrailingSurrogate_def)

lemma decode_pair:
  "isLeadingSurrogate h \<and> isTrailingSurrogate l
   \<Longrightarrow> StringToCodePoints (h # l # rest)
       = (65536 + (h - 55296) * 1024 + (l - 56320)) # StringToCodePoints rest"
  by simp

lemma decode_nopair:
  assumes "\<not> (isLeadingSurrogate h \<and> isTrailingSurrogate l)"
  shows "StringToCodePoints (h # l # rest) = h # StringToCodePoints (l # rest)"
  by (subst StringToCodePoints.simps(1)) (rule if_not_P [OF assms])

lemma decode_single:
  "\<not> (isLeadingSurrogate c \<and> us \<noteq> [] \<and> isTrailingSurrogate (hd us))
   \<Longrightarrow> StringToCodePoints (c # us) = c # StringToCodePoints us"
  by (cases us) auto

lemma combine_supplementary:
  "isLeadingSurrogate h \<Longrightarrow> isTrailingSurrogate l
   \<Longrightarrow> 65536 \<le> 65536 + (h - 55296) * 1024 + (l - 56320)"
  by (simp add: isLeadingSurrogate_def isTrailingSurrogate_def)

lemma decode_hd:
  "StringToCodePoints (l # rest) \<noteq> []
   \<and> (hd (StringToCodePoints (l # rest)) = l \<or> 65536 \<le> hd (StringToCodePoints (l # rest)))"
proof (cases rest)
  case Nil
  then show ?thesis by simp
next
  case (Cons m rest')
  show ?thesis
  proof (cases "isLeadingSurrogate l \<and> isTrailingSurrogate m")
    case True
    define cp where "cp = 65536 + (l - 55296) * 1024 + (m - 56320)"
    have g: "65536 \<le> cp"
      unfolding cp_def using True combine_supplementary by blast
    have e: "StringToCodePoints (l # m # rest') = cp # StringToCodePoints rest'"
      unfolding cp_def by (rule decode_pair [OF True])
    show ?thesis
      by (simp only: Cons e list.sel g list.distinct simp_thms)
  next
    case False
    have e: "StringToCodePoints (l # m # rest') = l # StringToCodePoints (m # rest')"
      by (rule decode_nopair [OF False])
    show ?thesis
      by (simp only: Cons e list.sel list.distinct simp_thms)
  qed
qed

lemma decode_last:
  "us \<noteq> [] \<Longrightarrow> StringToCodePoints us \<noteq> []
   \<and> (last (StringToCodePoints us) = last us \<or> 65536 \<le> last (StringToCodePoints us))"
proof (induction us rule: StringToCodePoints.induct)
  case (1 h l rest)
  show ?case
  proof (cases "isLeadingSurrogate h \<and> isTrailingSurrogate l")
    case True
    show ?thesis
    proof (cases "rest = []")
      case True2: True
      define cp where "cp = 65536 + (h - 55296) * 1024 + (l - 56320)"
      have g: "65536 \<le> cp"
        unfolding cp_def using True combine_supplementary by blast
      have e: "StringToCodePoints (h # l # rest) = [cp]"
        unfolding cp_def using decode_pair [OF True, of rest] True2 by simp
      show ?thesis
        by (simp only: e g last.simps list.distinct simp_thms if_True)
    next
      case False
      define cp where "cp = 65536 + (h - 55296) * 1024 + (l - 56320)"
      have e: "StringToCodePoints (h # l # rest) = cp # StringToCodePoints rest"
        unfolding cp_def by (rule decode_pair [OF True])
      from "1.IH"(1) [OF True False] show ?thesis
        using False by (simp add: e del: StringToCodePoints.simps)
    qed
  next
    case False
    have e: "StringToCodePoints (h # l # rest) = h # StringToCodePoints (l # rest)"
      by (rule decode_nopair [OF False])
    from "1.IH"(2) [OF False] show ?thesis
      by (simp add: e del: StringToCodePoints.simps)
  qed
qed simp_all

lemma surrogate_arith:
  fixes c :: int
  assumes "65536 \<le> c" and "c < 1114112"
  shows "55296 \<le> (c - 65536) div 1024 + 55296" "(c - 65536) div 1024 + 55296 \<le> 56319"
    "56320 \<le> (c - 65536) mod 1024 + 56320" "(c - 65536) mod 1024 + 56320 \<le> 57343"
proof -
  show "55296 \<le> (c - 65536) div 1024 + 55296" "(c - 65536) div 1024 + 55296 \<le> 56319"
    using assms by linarith+
  show "56320 \<le> (c - 65536) mod 1024 + 56320" "(c - 65536) mod 1024 + 56320 \<le> 57343"
    by simp_all
qed

lemma encode_valid:
  "validCodePoint c \<Longrightarrow> list_all validCodeUnit (UTF16EncodeCodePoint c)"
proof (cases "c \<le> 65535")
  case True
  assume "validCodePoint c"
  with True show ?thesis
    by (simp add: validCodePoint_def validCodeUnit_def UTF16EncodeCodePoint_def)
next
  case False
  assume "validCodePoint c"
  with False have c: "65536 \<le> c" "c < 1114112" by (simp_all add: validCodePoint_def)
  from surrogate_arith [OF c] False show ?thesis
    by (simp add: validCodeUnit_def UTF16EncodeCodePoint_def)
qed

lemma encode_nonempty: "UTF16EncodeCodePoint c \<noteq> []"
  by (simp add: UTF16EncodeCodePoint_def)

lemma encode_hd_trailing:
  assumes "validCodePoint n" and "isTrailingSurrogate (hd (UTF16EncodeCodePoint n @ xs))"
  shows "isTrailingSurrogate n"
proof (cases "n \<le> 65535")
  case True
  with assms(2) show ?thesis by (simp add: UTF16EncodeCodePoint_def)
next
  case False
  with assms(2) have "56320 \<le> (n - 65536) div 1024 + 55296"
    by (simp add: UTF16EncodeCodePoint_def isTrailingSurrogate_def)
  moreover have "n < 1114112" using assms(1) by (simp add: validCodePoint_def)
  ultimately have False by linarith
  then show ?thesis ..
qed

lemma decode_encode_supplementary:
  assumes "validCodePoint c" and "\<not> c \<le> 65535"
  shows "StringToCodePoints (UTF16EncodeCodePoint c @ us) = c # StringToCodePoints us"
proof -
  define h where "h = (c - 65536) div 1024 + 55296"
  define l where "l = (c - 65536) mod 1024 + 56320"
  have c: "65536 \<le> c" "c < 1114112" using assms by (simp_all add: validCodePoint_def)
  have h: "isLeadingSurrogate h"
    unfolding isLeadingSurrogate_def h_def using surrogate_arith(1,2) [OF c] by simp
  have l: "isTrailingSurrogate l"
    unfolding isTrailingSurrogate_def l_def using surrogate_arith(3,4) [OF c] by simp
  have v: "65536 + (h - 55296) * 1024 + (l - 56320) = c"
    unfolding h_def l_def by simp
  have "UTF16EncodeCodePoint c = [h, l]"
    using assms(2) by (simp add: UTF16EncodeCodePoint_def h_def l_def)
  then show ?thesis using h l v by simp
qed

lemma decode_encode:
  "list_all validCodePoint cps \<Longrightarrow> noPair cps
   \<Longrightarrow> StringToCodePoints (CodePointsToString cps) = cps"
proof (induction cps)
  case Nil
  show ?case by (simp add: CodePointsToString_def)
next
  case (Cons c rest)
  have vc: "validCodePoint c" and vr: "list_all validCodePoint rest" using Cons.prems(1) by simp_all
  have np: "noPair rest" using Cons.prems(2) by (simp add: noPair_Cons)
  have IH: "StringToCodePoints (CodePointsToString rest) = rest" by (rule Cons.IH [OF vr np])
  have step: "CodePointsToString (c # rest) = UTF16EncodeCodePoint c @ CodePointsToString rest"
    by (simp add: CodePointsToString_def)
  show ?case
  proof (cases "c \<le> 65535")
    case True
    have "\<not> (isLeadingSurrogate c \<and> CodePointsToString rest \<noteq> []
              \<and> isTrailingSurrogate (hd (CodePointsToString rest)))"
    proof
      assume a: "isLeadingSurrogate c \<and> CodePointsToString rest \<noteq> []
                 \<and> isTrailingSurrogate (hd (CodePointsToString rest))"
      then obtain n rest' where r: "rest = n # rest'"
        by (cases rest) (auto simp add: CodePointsToString_def)
      have "validCodePoint n" using vr r by simp
      moreover have "isTrailingSurrogate (hd (UTF16EncodeCodePoint n @ CodePointsToString rest'))"
        using a by (simp add: r CodePointsToString_def)
      ultimately have "isTrailingSurrogate n" by (rule encode_hd_trailing)
      moreover have "\<not> (isLeadingSurrogate c \<and> isTrailingSurrogate n)"
        using Cons.prems(2) by (simp add: r)
      ultimately show False using a by simp
    qed
    then have "StringToCodePoints (c # CodePointsToString rest)
               = c # StringToCodePoints (CodePointsToString rest)"
      by (rule decode_single)
    then show ?thesis using True IH by (simp add: step UTF16EncodeCodePoint_def)
  next
    case False
    show ?thesis
      using decode_encode_supplementary [OF vc False] IH by (simp add: step)
  qed
qed

lemma decode_wellformed:
  "list_all validCodeUnit us
   \<Longrightarrow> list_all validCodePoint (StringToCodePoints us) \<and> noPair (StringToCodePoints us)"
proof (induction us rule: StringToCodePoints.induct)
  case (1 h l rest)
  have vh: "validCodeUnit h" and vl: "validCodeUnit l" and vr: "list_all validCodeUnit rest"
    using "1.prems" by simp_all
  show ?case
  proof (cases "isLeadingSurrogate h \<and> isTrailingSurrogate l")
    case True
    define cp where "cp = 65536 + (h - 55296) * 1024 + (l - 56320)"
    have b: "55296 \<le> h" "h \<le> 56319" "56320 \<le> l" "l \<le> 57343"
      using True by (simp_all add: isLeadingSurrogate_def isTrailingSurrogate_def)
    have r: "65536 \<le> cp" "cp < 1114112"
      unfolding cp_def using b by simp_all
    then have "validCodePoint cp" "\<not> isLeadingSurrogate cp"
      by (simp_all add: validCodePoint_def isLeadingSurrogate_def)
    moreover have "list_all validCodePoint (StringToCodePoints rest)
                   \<and> noPair (StringToCodePoints rest)"
      using "1.IH"(1) [OF True] vr by simp
    moreover have "StringToCodePoints (h # l # rest) = cp # StringToCodePoints rest"
      unfolding cp_def by (rule decode_pair [OF True])
    ultimately show ?thesis by (simp add: noPair_Cons)
  next
    case False
    have ih: "list_all validCodePoint (StringToCodePoints (l # rest))
              \<and> noPair (StringToCodePoints (l # rest))"
      using "1.IH"(2) [OF False] vl vr by simp
    have "validCodePoint h" using vh by (simp add: validCodeUnit_def validCodePoint_def)
    moreover have "\<not> (isLeadingSurrogate h
                       \<and> isTrailingSurrogate (hd (StringToCodePoints (l # rest))))"
    proof
      assume a: "isLeadingSurrogate h \<and> isTrailingSurrogate (hd (StringToCodePoints (l # rest)))"
      from decode_hd [of l rest]
      have "hd (StringToCodePoints (l # rest)) = l \<or> 65536 \<le> hd (StringToCodePoints (l # rest))"
        by simp
      then show False
      proof
        assume "hd (StringToCodePoints (l # rest)) = l"
        with a False show False by simp
      next
        assume "65536 \<le> hd (StringToCodePoints (l # rest))"
        with a show False by (simp add: isTrailingSurrogate_def)
      qed
    qed
    ultimately have "list_all validCodePoint (h # StringToCodePoints (l # rest))
                     \<and> noPair (h # StringToCodePoints (l # rest))"
      using ih by (simp add: noPair_Cons)
    moreover have "StringToCodePoints (h # l # rest) = h # StringToCodePoints (l # rest)"
      by (rule decode_nopair [OF False])
    ultimately show ?thesis by (simp only:)
  qed
next
  case (2 u)
  then show ?case by (simp add: validCodeUnit_def validCodePoint_def)
next
  case 3
  show ?case by simp
qed


section \<open>Case mappings\<close>

lemma up_nonempty: "caseTableOK up \<Longrightarrow> up c \<noteq> []"
  unfolding caseTableOK_def goodKey_def by (metis list.distinct(1))

lemma up_cases:
  assumes "caseTableOK up"
  obtains "up c = [c]"
  | "\<not> isWhiteSpace c" "\<not> isSurrogate c" "\<forall>d \<in> set (up c). inertOutput up d"
  using assms unfolding caseTableOK_def goodKey_def list_all_iff by blast

lemma up_closed:
  assumes "caseTableOK up" and "d \<in> set (up c)"
  shows "up d = [d]"
proof (rule up_cases [OF assms(1), of c])
  assume "up c = [c]"
  with assms(2) show ?thesis by simp
next
  assume "\<forall>d \<in> set (up c). inertOutput up d"
  with assms(2) show ?thesis by (simp add: inertOutput_def)
qed

lemma concat_map_single: "(\<And>d. d \<in> set xs \<Longrightarrow> f d = [d]) \<Longrightarrow> concat (map f xs) = xs"
  by (induction xs) auto

lemma upAll_idem:
  assumes "caseTableOK up"
  shows "concat (map up (concat (map up cps))) = concat (map up cps)"
proof (rule concat_map_single)
  fix d assume "d \<in> set (concat (map up cps))"
  then obtain c where "d \<in> set (up c)" by auto
  then show "up d = [d]" by (rule up_closed [OF assms])
qed

lemma up_valid:
  assumes "caseTableOK up" and "validCodePoint c" and "d \<in> set (up c)"
  shows "validCodePoint d"
proof (rule up_cases [OF assms(1), of c])
  assume "up c = [c]"
  with assms(2,3) show ?thesis by simp
next
  assume "\<forall>d \<in> set (up c). inertOutput up d"
  with assms(3) show ?thesis by (simp add: inertOutput_def validCodePoint_def)
qed

lemma up_not_space:
  assumes "caseTableOK up" and "\<not> isWhiteSpace c" and "d \<in> set (up c)"
  shows "\<not> isWhiteSpace d"
proof (rule up_cases [OF assms(1), of c])
  assume "up c = [c]"
  with assms(2,3) show ?thesis by simp
next
  assume "\<forall>d \<in> set (up c). inertOutput up d"
  with assms(3) show ?thesis by (simp add: inertOutput_def)
qed

lemma up_surrogate:
  assumes "caseTableOK up" and "d \<in> set (up c)" and "isSurrogate d"
  shows "up c = [c] \<and> d = c"
proof (rule up_cases [OF assms(1), of c])
  assume "up c = [c]"
  with assms(2) show ?thesis by simp
next
  assume "\<forall>d \<in> set (up c). inertOutput up d"
  with assms(2,3) show ?thesis by (simp add: inertOutput_def)
qed

lemma upAll_wellformed:
  assumes ok: "caseTableOK up"
  shows "list_all validCodePoint cps \<Longrightarrow> noPair cps
         \<Longrightarrow> list_all validCodePoint (concat (map up cps)) \<and> noPair (concat (map up cps))"
proof (induction cps)
  case Nil
  show ?case by simp
next
  case (Cons c rest)
  have vc: "validCodePoint c" and vr: "list_all validCodePoint rest" using Cons.prems(1) by simp_all
  have npr: "noPair rest" using Cons.prems(2) by (simp add: noPair_Cons)
  have ih: "list_all validCodePoint (concat (map up rest))" "noPair (concat (map up rest))"
    using Cons.IH [OF vr npr] by simp_all
  have v: "list_all validCodePoint (up c)"
    using up_valid [OF ok vc] by (simp add: list_all_iff)
  have n1: "noPair (up c)"
  proof (rule up_cases [OF ok, of c])
    assume "up c = [c]"
    then show ?thesis by simp
  next
    assume "\<forall>d \<in> set (up c). inertOutput up d"
    then have "\<forall>d \<in> set (up c). \<not> isSurrogate d" by (simp add: inertOutput_def)
    then show ?thesis by (rule noPair_no_surrogates)
  qed
  have b: "\<not> (isLeadingSurrogate (last (up c)) \<and> isTrailingSurrogate (hd (concat (map up rest))))"
    if ne: "concat (map up rest) \<noteq> []"
  proof
    assume a: "isLeadingSurrogate (last (up c)) \<and> isTrailingSurrogate (hd (concat (map up rest)))"
    have "last (up c) \<in> set (up c)" using up_nonempty [OF ok] by simp
    moreover have "isSurrogate (last (up c))" using a surrogate_kinds(1) by blast
    ultimately have "last (up c) = c" using up_surrogate [OF ok] by blast
    then have lc: "isLeadingSurrogate c" using a by simp
    obtain n rest' where r: "rest = n # rest'" using ne by (cases rest) auto
    have "hd (concat (map up rest)) = hd (up n)"
      using up_nonempty [OF ok, of n] by (simp add: r)
    moreover have "hd (up n) \<in> set (up n)" using up_nonempty [OF ok] by simp
    moreover have "isSurrogate (hd (concat (map up rest)))" using a surrogate_kinds(2) by blast
    ultimately have "hd (concat (map up rest)) = n" using up_surrogate [OF ok, of "hd (up n)" n] by simp
    then have "isTrailingSurrogate n" using a by simp
    moreover have "\<not> (isLeadingSurrogate c \<and> isTrailingSurrogate n)"
      using Cons.prems(2) by (simp add: r)
    ultimately show False using lc by simp
  qed
  have "noPair (up c @ concat (map up rest))"
    using n1 ih(2) b by (auto simp add: noPair_append)
  then show ?case using v ih(1) by simp
qed

section \<open>toUpperCase on code units\<close>

lemma encodeAll_valid:
  "list_all validCodePoint cps \<Longrightarrow> list_all validCodeUnit (CodePointsToString cps)"
  by (induction cps) (simp_all add: CodePointsToString_def encode_valid)

lemma upperUnits_valid:
  assumes "caseTableOK up" and "list_all validCodeUnit us"
  shows "list_all validCodeUnit (upperUnits up us)"
  unfolding upperUnits_def
  using upAll_wellformed [OF assms(1)] decode_wellformed [OF assms(2)] encodeAll_valid
  by blast

lemma upperUnits_idem:
  assumes ok: "caseTableOK up" and v: "list_all validCodeUnit us"
  shows "upperUnits up (upperUnits up us) = upperUnits up us"
proof -
  define cps where "cps = concat (map up (StringToCodePoints us))"
  have "list_all validCodePoint cps \<and> noPair cps"
    unfolding cps_def using upAll_wellformed [OF ok] decode_wellformed [OF v] by blast
  then have "StringToCodePoints (CodePointsToString cps) = cps"
    using decode_encode by blast
  moreover have "concat (map up cps) = cps"
    unfolding cps_def by (rule upAll_idem [OF ok])
  ultimately show ?thesis by (simp add: upperUnits_def cps_def [symmetric])
qed

lemma space_is_small: "isWhiteSpace c \<Longrightarrow> c \<le> 65279"
  by (auto simp add: isWhiteSpace_def)

lemma surrogate_not_space: "isSurrogate c \<Longrightarrow> \<not> isWhiteSpace c"
  by (auto simp add: isWhiteSpace_def isSurrogate_def)

lemma encode_hd_not_space:
  assumes "validCodePoint d" and "\<not> isWhiteSpace d"
  shows "\<not> isWhiteSpace (hd (UTF16EncodeCodePoint d))"
proof (cases "d \<le> 65535")
  case True
  with assms(2) show ?thesis by (simp add: UTF16EncodeCodePoint_def)
next
  case False
  with assms(1) have c: "65536 \<le> d" "d < 1114112" by (simp_all add: validCodePoint_def)
  have "isSurrogate ((d - 65536) div 1024 + 55296)"
    unfolding isSurrogate_def using surrogate_arith(1,2) [OF c] by simp
  then show ?thesis using False surrogate_not_space by (simp add: UTF16EncodeCodePoint_def)
qed

lemma encode_last_not_space:
  assumes "validCodePoint d" and "\<not> isWhiteSpace d"
  shows "\<not> isWhiteSpace (last (UTF16EncodeCodePoint d))"
proof (cases "d \<le> 65535")
  case True
  with assms(2) show ?thesis by (simp add: UTF16EncodeCodePoint_def)
next
  case False
  with assms(1) have c: "65536 \<le> d" "d < 1114112" by (simp_all add: validCodePoint_def)
  have "isSurrogate ((d - 65536) mod 1024 + 56320)"
    unfolding isSurrogate_def using surrogate_arith(3,4) [OF c] by simp
  then show ?thesis using False surrogate_not_space by (simp add: UTF16EncodeCodePoint_def)
qed

lemma last_concat_map:
  "xs \<noteq> [] \<Longrightarrow> (\<And>x. f x \<noteq> []) \<Longrightarrow> last (concat (map f xs)) = last (f (last xs))"
proof (induction xs)
  case Nil
  then show ?case by simp
next
  case (Cons a xs)
  show ?case
  proof (cases "xs = []")
    case True
    then show ?thesis by simp
  next
    case False
    then obtain b ys where "xs = b # ys" by (cases xs) auto
    then have "concat (map f xs) \<noteq> []" using Cons.prems(2) by simp
    then show ?thesis using Cons.IH [OF False Cons.prems(2)] False by simp
  qed
qed

lemma upperUnits_hd:
  assumes ok: "caseTableOK up" and v: "list_all validCodeUnit us"
    and ne: "us \<noteq> []" and h: "\<not> isWhiteSpace (hd us)"
  shows "upperUnits up us \<noteq> [] \<and> \<not> isWhiteSpace (hd (upperUnits up us))"
proof -
  obtain u rest where us: "us = u # rest" using ne by (cases us) auto
  obtain c cs where d: "StringToCodePoints us = c # cs"
    using decode_hd [of u rest] by (cases "StringToCodePoints us") (auto simp add: us)
  have "c = u \<or> 65536 \<le> c" using decode_hd [of u rest] d by (simp add: us)
  then have nc: "\<not> isWhiteSpace c" using h space_is_small [of c] by (auto simp add: us)
  have vc: "validCodePoint c" using decode_wellformed [OF v] d by simp
  obtain e es where u: "up c = e # es" using up_nonempty [OF ok, of c] by (cases "up c") auto
  have "\<not> isWhiteSpace e" using up_not_space [OF ok nc, of e] u by simp
  moreover have "validCodePoint e" using up_valid [OF ok vc, of e] u by simp
  ultimately have "\<not> isWhiteSpace (hd (UTF16EncodeCodePoint e))" using encode_hd_not_space by blast
  then show ?thesis
    using encode_nonempty [of e] by (simp add: upperUnits_def d u CodePointsToString_def)
qed

lemma upperUnits_last:
  assumes ok: "caseTableOK up" and v: "list_all validCodeUnit us"
    and ne: "us \<noteq> []" and l: "\<not> isWhiteSpace (last us)"
  shows "\<not> isWhiteSpace (last (upperUnits up us))"
proof -
  define cps where "cps = StringToCodePoints us"
  have c1: "cps \<noteq> []" and c2: "last cps = last us \<or> 65536 \<le> last cps"
    using decode_last [OF ne] by (simp_all add: cps_def)
  have nc: "\<not> isWhiteSpace (last cps)"
    using c2 l space_is_small [of "last cps"] by auto
  have vc: "validCodePoint (last cps)"
    using decode_wellformed [OF v] c1 by (simp add: cps_def [symmetric] list_all_iff)
  define ds where "ds = concat (map up cps)"
  have d1: "ds \<noteq> []"
    using c1 up_nonempty [OF ok] by (cases cps) (auto simp add: ds_def)
  have d2: "last ds = last (up (last cps))"
    unfolding ds_def using c1 up_nonempty [OF ok] by (rule last_concat_map)
  have "last (up (last cps)) \<in> set (up (last cps))" using up_nonempty [OF ok] by simp
  then have nd: "\<not> isWhiteSpace (last ds)" and vd: "validCodePoint (last ds)"
    using up_not_space [OF ok nc] up_valid [OF ok vc] d2 by simp_all
  have "last (CodePointsToString ds) = last (UTF16EncodeCodePoint (last ds))"
    unfolding CodePointsToString_def using d1 encode_nonempty by (rule last_concat_map)
  then show ?thesis
    using encode_last_not_space [OF vd nd] by (simp add: upperUnits_def cps_def ds_def)
qed

section \<open>toUpperCase and trim on strings\<close>

lemma uint_valid: "list_all validCodeUnit (map uint (s :: jsstring))"
proof -
  have "0 \<le> uint w \<and> uint w \<le> 65535" for w :: "16 word"
    using uint_lt2p [of w] by simp
  then show ?thesis by (simp add: list_all_iff validCodeUnit_def)
qed

lemma uint_word_of_int_valid:
  "list_all validCodeUnit us \<Longrightarrow> map uint (map word_of_int us :: jsstring) = us"
proof (induction us)
  case Nil
  show ?case by simp
next
  case (Cons u us)
  then have "0 \<le> u" "u < 2 ^ 16" by (simp_all add: validCodeUnit_def)
  then have "uint (word_of_int u :: 16 word) = u"
    by (simp add: uint_word_of_int take_bit_int_eq_self)
  with Cons show ?case by simp
qed

lemma toUpperCaseBy_units:
  assumes "caseTableOK up"
  shows "map uint (toUpperCaseBy up s) = upperUnits up (map uint s)"
  unfolding toUpperCaseBy_def upperUnits_def [symmetric]
  by (rule uint_word_of_int_valid [OF upperUnits_valid [OF assms uint_valid]])

lemma toUpperCaseBy_idem:
  assumes "caseTableOK up"
  shows "toUpperCaseBy up (toUpperCaseBy up s) = toUpperCaseBy up s"
proof -
  have "toUpperCaseBy up (toUpperCaseBy up s)
        = map word_of_int (upperUnits up (map uint (toUpperCaseBy up s)))"
    by (simp add: toUpperCaseBy_def upperUnits_def)
  also have "\<dots> = map word_of_int (upperUnits up (upperUnits up (map uint s)))"
    by (simp only: toUpperCaseBy_units [OF assms])
  also have "\<dots> = map word_of_int (upperUnits up (map uint s))"
    by (simp only: upperUnits_idem [OF assms uint_valid])
  also have "\<dots> = toUpperCaseBy up s"
    by (simp add: toUpperCaseBy_def upperUnits_def)
  finally show ?thesis .
qed

lemma dropWhile_keeps_last:
  assumes "\<not> P y"
  shows "\<exists>zs. dropWhile P (xs @ [y]) = zs @ [y]"
  by (induction xs) (use assms in auto)

lemma trim_no_leading: "trim s = [] \<or> \<not> isWhiteSpace (uint (hd (trim s)))"
proof (cases "dropWhile (\<lambda>u. isWhiteSpace (uint u)) s")
  case Nil
  show ?thesis unfolding trim_def Nil by simp
next
  case (Cons y ys)
  then have y: "\<not> isWhiteSpace (uint y)"
    by (metis (mono_tags, lifting) hd_dropWhile list.distinct(1) list.sel(1))
  obtain zs where "dropWhile (\<lambda>u. isWhiteSpace (uint u)) (rev ys @ [y]) = zs @ [y]"
    using dropWhile_keeps_last [of "\<lambda>u. isWhiteSpace (uint u)" y "rev ys"] y by blast
  then have "trim s = y # rev zs"
    by (simp add: trim_def Cons)
  with y show ?thesis by simp
qed

lemma trim_no_trailing: "trim s = [] \<or> \<not> isWhiteSpace (uint (last (trim s)))"
proof (cases "dropWhile (\<lambda>u. isWhiteSpace (uint u)) (rev (dropWhile (\<lambda>u. isWhiteSpace (uint u)) s))")
  case Nil
  show ?thesis unfolding trim_def Nil by simp
next
  case (Cons y ys)
  then have "\<not> isWhiteSpace (uint y)"
    by (metis (mono_tags, lifting) hd_dropWhile list.distinct(1) list.sel(1))
  then show ?thesis unfolding trim_def Cons by simp
qed

lemma trim_fixed:
  assumes "t = [] \<or> \<not> isWhiteSpace (uint (hd t))"
    and "t = [] \<or> \<not> isWhiteSpace (uint (last t))"
  shows "trim t = t"
proof (cases t)
  case Nil
  then show ?thesis by (simp add: trim_def)
next
  case (Cons a as)
  with assms have h: "\<not> isWhiteSpace (uint a)" and l: "\<not> isWhiteSpace (uint (last t))" by auto
  have 1: "dropWhile (\<lambda>u. isWhiteSpace (uint u)) t = t" using h Cons by simp
  obtain b bs where r: "rev t = b # bs"
    using Cons by (cases "rev t") auto
  have "hd (rev t) = last t" using Cons by (simp add: hd_rev)
  then have "\<not> isWhiteSpace (uint b)" using r l by simp
  then have "dropWhile (\<lambda>u. isWhiteSpace (uint u)) (b # bs) = b # bs" by simp
  then have 2: "dropWhile (\<lambda>u. isWhiteSpace (uint u)) (rev t) = rev t"
    by (simp only: r)
  show ?thesis by (simp add: trim_def 1 2)
qed

lemma trim_idem: "trim (trim s) = trim s"
  by (rule trim_fixed [OF trim_no_leading trim_no_trailing])

lemma toUpperCaseBy_trimmed:
  assumes ok: "caseTableOK up"
    and h: "t = [] \<or> \<not> isWhiteSpace (uint (hd t))"
    and l: "t = [] \<or> \<not> isWhiteSpace (uint (last t))"
  shows "trim (toUpperCaseBy up t) = toUpperCaseBy up t"
proof (cases "t = []")
  case True
  then show ?thesis by (simp add: toUpperCaseBy_def CodePointsToString_def trim_def)
next
  case False
  define r where "r = toUpperCaseBy up t"
  have u: "map uint r = upperUnits up (map uint t)"
    unfolding r_def by (rule toUpperCaseBy_units [OF ok])
  have ne: "map uint t \<noteq> []" using False by simp
  have hh: "\<not> isWhiteSpace (hd (map uint t))" using h False by (simp add: hd_map)
  have ll: "\<not> isWhiteSpace (last (map uint t))" using l False by (simp add: last_map)
  have 1: "map uint r \<noteq> [] \<and> \<not> isWhiteSpace (hd (map uint r))"
    unfolding u by (rule upperUnits_hd [OF ok uint_valid ne hh])
  have 2: "\<not> isWhiteSpace (last (map uint r))"
    unfolding u by (rule upperUnits_last [OF ok uint_valid ne ll])
  have rne: "r \<noteq> []" using 1 by auto
  have "\<not> isWhiteSpace (uint (hd r))" using 1 rne by (simp add: hd_map)
  moreover have "\<not> isWhiteSpace (uint (last r))" using 2 rne by (simp add: last_map)
  ultimately have "trim r = r" by (intro trim_fixed) simp_all
  then show ?thesis by (simp add: r_def)
qed

lemma normalize_idem_by:
  assumes "caseTableOK up"
  shows "toUpperCaseBy up (trim (toUpperCaseBy up (trim s))) = toUpperCaseBy up (trim s)"
  by (simp only: toUpperCaseBy_trimmed [OF assms trim_no_leading trim_no_trailing]
      toUpperCaseBy_idem [OF assms])


section \<open>Properties of normalizeTrxID\<close>

lemma normalizeTrxID_idem: "normalizeTrxID (normalizeTrxID s) = normalizeTrxID s"
  by (simp only: normalizeTrxID_def toUpperCase_def normalize_idem_by [OF toUppercase_ok])

text \<open>
  On examples: the references of the specification, and a string with a no-break space,
  e-acute, sharp s (which becomes two letters), a Deseret letter (a surrogate pair) and a
  trailing em space.
\<close>

lemma normalizeTrxID_examples:
  "normalizeTrxID (js '' cju0pzq3u6 '') = js ''CJU0PZQ3U6''"
  "normalizeTrxID (js ''Cju0Pzq3U6'') = js ''CJU0PZQ3U6''"
  "normalizeTrxID [0xA0, 0xE9, 0xDF, 0xD801, 0xDC28, 0x2003] = [0xC9, 0x53, 0x53, 0xD801, 0xDC00]"
  by code_simp+

section \<open>C10: normalisation is idempotent\<close>

text \<open>
  C10. \<open>normalizeTrxID\<close> is idempotent: normalising a normalised reference gives the
  same reference. Hence a session whose reference was normalised when it was written
  (as the submit route does) gets, from \<open>verifyPayment\<close>, the verdict of the reference as
  entered: the second normalisation in rule 1 changes nothing.
\<close>

theorem C10_normalizeTrxID_idempotent:
  "normalizeTrxID (normalizeTrxID s) = normalizeTrxID s
   \<and> verifyPayment (t\<lparr>user_entered_trxid := Some (normalizeTrxID s)\<rparr>) tx w
       = verifyPayment (t\<lparr>user_entered_trxid := Some s\<rparr>) tx w"
  by (simp add: normalizeTrxID_idem verifyPayment_def Let_def split: option.split)

section \<open>The rule chain of verifyPayment\<close>

text \<open>
  The duplicate check searches the result of \<open>findByTrxID\<close> for a verified session, and
  \<open>findByTrxID\<close> returns pending and submitted sessions only: the search finds nothing.
\<close>

lemma rule5_never_rejects:
  "find (\<lambda>t. status t = verified \<and> tracking_id t \<noteq> i) (tracking_findByTrxID x w) = None"
  by (auto simp add: tracking_findByTrxID_def find_None_iff)

lemma verifyPayment_rule1:
  "normalizeTrxID (case user_entered_trxid t of None \<Rightarrow> [] | Some x \<Rightarrow> x) \<noteq> normalizeTrxID (trxid tx)
   \<Longrightarrow> verifyPayment t tx w =
       Inr \<lparr>success = False, result_status = failed, message = ''Transaction ID does not match'',
            result_matched_transaction_id = None,
            failure_reason = Some (TrxIDMismatch
              (normalizeTrxID (case user_entered_trxid t of None \<Rightarrow> [] | Some x \<Rightarrow> x))
              (normalizeTrxID (trxid tx)))\<rparr>"
  by (simp add: verifyPayment_def Let_def)

lemma verifyPayment_rule2:
  "normalizeTrxID (case user_entered_trxid t of None \<Rightarrow> [] | Some x \<Rightarrow> x) = normalizeTrxID (trxid tx)
   \<Longrightarrow> payment_amount_cents t \<noteq> amount_cents tx
   \<Longrightarrow> verifyPayment t tx w =
       Inr \<lparr>success = False, result_status = failed, message = ''Payment amount does not match'',
            result_matched_transaction_id = None,
            failure_reason = Some (AmountMismatch (payment_amount_cents t) (amount_cents tx))\<rparr>"
  by (simp add: verifyPayment_def Let_def)

lemma verifyPayment_rule3:
  "normalizeTrxID (case user_entered_trxid t of None \<Rightarrow> [] | Some x \<Rightarrow> x) = normalizeTrxID (trxid tx)
   \<Longrightarrow> payment_amount_cents t = amount_cents tx
   \<Longrightarrow> offered_receivers t = Some rs \<Longrightarrow> receiver_phone tx \<notin> set rs
   \<Longrightarrow> verifyPayment t tx w =
       Inr \<lparr>success = False, result_status = failed, message = ''Payment sent to wrong number'',
            result_matched_transaction_id = None,
            failure_reason = Some (ReceiverNotInOfferedList (receiver_phone tx) rs)\<rparr>"
  by (simp add: verifyPayment_def Let_def)

lemma verifyPayment_rule4:
  "normalizeTrxID (case user_entered_trxid t of None \<Rightarrow> [] | Some x \<Rightarrow> x) = normalizeTrxID (trxid tx)
   \<Longrightarrow> payment_amount_cents t = amount_cents tx
   \<Longrightarrow> offered_receivers t = Some rs \<Longrightarrow> receiver_phone tx \<in> set rs
   \<Longrightarrow> received_at tx < created_at t - 3600000 \<or> received_at tx > expires_at t + 900000
   \<Longrightarrow> verifyPayment t tx w =
       Inr \<lparr>success = False, result_status = failed, message = ''Payment outside valid time window'',
            result_matched_transaction_id = None,
            failure_reason = Some (OutsideTimeWindow (received_at tx) (created_at t - 3600000)
                                     (expires_at t + 900000))\<rparr>"
  by (simp add: verifyPayment_def Let_def)

lemma verifyPayment_accept:
  "normalizeTrxID (case user_entered_trxid t of None \<Rightarrow> [] | Some x \<Rightarrow> x) = normalizeTrxID (trxid tx)
   \<Longrightarrow> payment_amount_cents t = amount_cents tx
   \<Longrightarrow> offered_receivers t = Some rs \<Longrightarrow> receiver_phone tx \<in> set rs
   \<Longrightarrow> created_at t - 3600000 \<le> received_at tx \<Longrightarrow> received_at tx \<le> expires_at t + 900000
   \<Longrightarrow> verifyPayment t tx w =
       Inr \<lparr>success = True, result_status = verified, message = ''Payment verified successfully'',
            result_matched_transaction_id = Some (tx_id tx), failure_reason = None\<rparr>"
  by (simp add: verifyPayment_def Let_def rule5_never_rejects)

lemma tracking_create_window:
  "tracking_create d ident now w = (Inr t, w') \<Longrightarrow> expires_at t = created_at t + 3600000"
  by (auto simp add: tracking_create_def Let_def split: if_splits)

section \<open>C6: the time window is inclusive at both ends\<close>

text \<open>
  C6. For a session and a receipt that agree on reference, amount and receiver, where the
  session does not expire before it is created (\<open>TrackingService.create\<close> sets
  \<open>expires_at\<close> one hour after \<open>created_at\<close>): a receipt timed exactly one hour before
  \<open>created_at\<close> passes the time window rule, one second earlier it is rejected by it; a
  receipt timed exactly fifteen minutes after \<open>expires_at\<close> passes, one second later it
  is rejected.
\<close>

theorem C6_time_window_inclusive:
  assumes "normalizeTrxID (case user_entered_trxid t of None \<Rightarrow> [] | Some x \<Rightarrow> x)
             = normalizeTrxID (trxid tx)"
    and "payment_amount_cents t = amount_cents tx"
    and "offered_receivers t = Some rs" and "receiver_phone tx \<in> set rs"
    and "created_at t \<le> expires_at t"
  shows "passedTimeWindow (verifyPayment t (tx\<lparr>received_at := created_at t - 60 * 60 * 1000\<rparr>) w)
       \<and> rejectedOutsideWindow
           (verifyPayment t (tx\<lparr>received_at := created_at t - 60 * 60 * 1000 - 1000\<rparr>) w)
       \<and> passedTimeWindow (verifyPayment t (tx\<lparr>received_at := expires_at t + 15 * 60 * 1000\<rparr>) w)
       \<and> rejectedOutsideWindow
           (verifyPayment t (tx\<lparr>received_at := expires_at t + 15 * 60 * 1000 + 1000\<rparr>) w)"
  using assms
  by (simp add: verifyPayment_def Let_def passedTimeWindow_def rejectedOutsideWindow_def
      split: option.split)

theorem C6_time_window_inclusive_witness:
  "passedTimeWindow (verifyPayment session_T1 (receipt_ABC\<lparr>received_at := -2700000\<rparr>) world_two_sessions)
   \<and> rejectedOutsideWindow (verifyPayment session_T1 (receipt_ABC\<lparr>received_at := -2701000\<rparr>) world_two_sessions)
   \<and> passedTimeWindow (verifyPayment session_T1 (receipt_ABC\<lparr>received_at := 5400000\<rparr>) world_two_sessions)
   \<and> rejectedOutsideWindow (verifyPayment session_T1 (receipt_ABC\<lparr>received_at := 5401000\<rparr>) world_two_sessions)"
proof -
  have n: "normalizeTrxID (js ''ABC123'') = js ''ABC123''" by code_simp
  show ?thesis
    using C6_time_window_inclusive [of session_T1 receipt_ABC "[''01785863769'']" world_two_sessions]
    by (simp add: session_T1_def receipt_ABC_def n)
qed

section \<open>Frames: which rows an operation can change\<close>

lemma only_touches_refl: "only_touches S w w"
  by (simp add: only_touches_def list_all2_same)

lemma only_touches_trans:
  assumes "only_touches S w w'" and "only_touches S' w' w''"
  shows "only_touches (S \<union> S') w w''"
proof -
  have "list_all2 (\<lambda>a c. tracking_id a = tracking_id c \<and> (tracking_id a \<notin> S \<union> S' \<longrightarrow> a = c))
          (tracking_table w) (tracking_table w'')"
  proof (rule list_all2_trans)
    show "list_all2 (\<lambda>a b. tracking_id a = tracking_id b \<and> (tracking_id a \<notin> S \<longrightarrow> a = b))
            (tracking_table w) (tracking_table w')"
      using assms(1) by (simp only: only_touches_def)
    show "list_all2 (\<lambda>a b. tracking_id a = tracking_id b \<and> (tracking_id a \<notin> S' \<longrightarrow> a = b))
            (tracking_table w') (tracking_table w'')"
      using assms(2) by (simp only: only_touches_def)
  next
    fix a b c :: Tracking
    assume 1: "tracking_id a = tracking_id b \<and> (tracking_id a \<notin> S \<longrightarrow> a = b)"
      and 2: "tracking_id b = tracking_id c \<and> (tracking_id b \<notin> S' \<longrightarrow> b = c)"
    show "tracking_id a = tracking_id c \<and> (tracking_id a \<notin> S \<union> S' \<longrightarrow> a = c)"
      using 1 2 by (metis UnCI)
  qed
  then show ?thesis by (simp only: only_touches_def)
qed

lemma only_touches_mono:
  assumes "only_touches S w w'" and "S \<subseteq> S'"
  shows "only_touches S' w w'"
proof -
  have "list_all2 (\<lambda>a b. tracking_id a = tracking_id b \<and> (tracking_id a \<notin> S' \<longrightarrow> a = b))
          (tracking_table w) (tracking_table w')"
  proof (rule list_all2_mono)
    show "list_all2 (\<lambda>a b. tracking_id a = tracking_id b \<and> (tracking_id a \<notin> S \<longrightarrow> a = b))
            (tracking_table w) (tracking_table w')"
      using assms(1) by (simp only: only_touches_def)
  next
    fix a b :: Tracking
    assume "tracking_id a = tracking_id b \<and> (tracking_id a \<notin> S \<longrightarrow> a = b)"
    then show "tracking_id a = tracking_id b \<and> (tracking_id a \<notin> S' \<longrightarrow> a = b)"
      using assms(2) by blast
  qed
  then show ?thesis by (simp only: only_touches_def)
qed

lemma list_all2_same_ids:
  "list_all2 (\<lambda>a b. tracking_id a = tracking_id b \<and> Q a b) xs ys
   \<Longrightarrow> map tracking_id ys = map tracking_id xs"
proof (induction xs arbitrary: ys)
  case Nil
  then show ?case by simp
next
  case (Cons x xs)
  from Cons.prems obtain z zs where z: "ys = z # zs" and i: "tracking_id x = tracking_id z"
      and r: "list_all2 (\<lambda>a b. tracking_id a = tracking_id b \<and> Q a b) xs zs"
    by (auto simp add: list_all2_Cons1)
  have "map tracking_id zs = map tracking_id xs" by (rule Cons.IH [OF r])
  then show ?case by (simp add: z i)
qed

lemma only_touches_ids:
  "only_touches S w w' \<Longrightarrow> map tracking_id (tracking_table w') = map tracking_id (tracking_table w)"
  unfolding only_touches_def by (rule list_all2_same_ids)

lemma only_touches_find:
  "list_all2 (\<lambda>a b. tracking_id a = tracking_id b \<and> (tracking_id a \<notin> S \<longrightarrow> a = b)) xs ys
   \<Longrightarrow> i \<notin> S
   \<Longrightarrow> find (\<lambda>t. tracking_id t = i) ys = find (\<lambda>t. tracking_id t = i) xs"
proof (induction xs arbitrary: ys)
  case Nil
  then show ?case by simp
next
  case (Cons x xs)
  from Cons.prems(1) obtain z zs where z: "ys = z # zs" and i: "tracking_id x = tracking_id z"
      and e: "tracking_id x \<notin> S \<longrightarrow> x = z"
      and r: "list_all2 (\<lambda>a b. tracking_id a = tracking_id b \<and> (tracking_id a \<notin> S \<longrightarrow> a = b)) xs zs"
    by (auto simp add: list_all2_Cons1)
  have ih: "find (\<lambda>t. tracking_id t = i) zs = find (\<lambda>t. tracking_id t = i) xs"
    by (rule Cons.IH [OF r Cons.prems(2)])
  show ?case
  proof (cases "tracking_id x = i")
    case True
    then have "x = z" using e Cons.prems(2) by blast
    then show ?thesis using True by (simp add: z)
  next
    case False
    then have "tracking_id z \<noteq> i" using i by metis
    then show ?thesis using False ih by (simp add: z)
  qed
qed

lemma only_touches_getByID:
  "only_touches S w w' \<Longrightarrow> i \<notin> S \<Longrightarrow> tracking_getByID i w' = tracking_getByID i w"
  unfolding only_touches_def tracking_getByID_def by (rule only_touches_find)

lemma only_touches_map:
  assumes "\<And>t. tracking_id (f t) = tracking_id t"
  shows "only_touches S w (w\<lparr>tracking_table :=
           map (\<lambda>t. if tracking_id t \<in> S then f t else t) (tracking_table w)\<rparr>)"
  using assms by (simp add: only_touches_def list_all2_map2 list_all2_same)

lemma tracking_updateStatus_frame:
  "only_touches {i} w (tracking_updateStatus i st m n now w)"
  using only_touches_map [of "\<lambda>t. t\<lparr>status := st, updated_at := now,
       matched_transaction_id := or_null m, tracking_notes := note_or_null n\<rparr>" "{i}" w]
  by (simp add: tracking_updateStatus_def)

lemma tracking_submitTrxID_frame:
  "only_touches {i} w (tracking_submitTrxID i x now w)"
  using only_touches_map [of "\<lambda>t. t\<lparr>user_entered_trxid := Some x, status := submitted_trx,
       updated_at := now\<rparr>" "{i}" w]
  by (simp add: tracking_submitTrxID_def)

lemma expireSessions_frame:
  "only_touches (set ids) w (expireSessions ids now w)"
  using only_touches_map [of "\<lambda>t. t\<lparr>status := expired, updated_at := now\<rparr>" "set ids" w]
  by (simp add: expireSessions_def only_touches_refl)

lemma applyResult_frame: "only_touches {i} w (applyResult i r now w)"
  by (simp add: applyResult_def tracking_updateStatus_frame only_touches_refl)



lemma attemptVerification_frame: "only_touches {i} w (snd (attemptVerification i now w))"
  by (simp add: attemptVerification_def Let_def applyResult_frame only_touches_refl
      split: option.split sum.split)

lemma verifySessions_frame:
  "only_touches (tracking_id ` set sessions) w (snd (verifySessions tx now sessions results w))"
proof (induction sessions arbitrary: results w)
  case Nil
  show ?case by (simp add: only_touches_refl)
next
  case (Cons s rest)
  show ?case
  proof (cases "verifyPayment s tx w")
    case (Inl e)
    then show ?thesis by (simp add: only_touches_refl)
  next
    case (Inr r)
    have "only_touches ({tracking_id s} \<union> tracking_id ` set rest) w
            (snd (verifySessions tx now rest (results @ [r]) (applyResult (tracking_id s) r now w)))"
      by (rule only_touches_trans [OF applyResult_frame Cons.IH])
    then show ?thesis by (simp add: Inr)
  qed
qed

lemma verifyIncomingTransaction_frame:
  "only_touches (open_ids w) w (snd (verifyIncomingTransaction x now w))"
proof (cases "transactions_getByID x w")
  case None
  then show ?thesis by (simp add: verifyIncomingTransaction_def only_touches_refl)
next
  case (Some tx)
  have "tracking_id ` set (tracking_findByTrxID (normalizeTrxID (trxid tx)) w) \<subseteq> open_ids w"
    by (auto simp add: tracking_findByTrxID_def open_ids_def)
  with verifySessions_frame have "only_touches (open_ids w) w
      (snd (verifySessions tx now (tracking_findByTrxID (normalizeTrxID (trxid tx)) w) [] w))"
    by (rule only_touches_mono)
  then show ?thesis
    by (simp add: verifyIncomingTransaction_def Some Let_def only_touches_refl)
qed

lemma retrySessions_frame:
  "only_touches (tracking_id ` set sessions) w (snd (retrySessions now sessions c w))"
proof (induction sessions arbitrary: c w)
  case Nil
  show ?case by (simp add: only_touches_refl)
next
  case (Cons s rest)
  obtain res w' where a: "attemptVerification (tracking_id s) now w = (res, w')"
    by (cases "attemptVerification (tracking_id s) now w")
  have f: "only_touches {tracking_id s} w w'"
    using attemptVerification_frame [of "tracking_id s" w now] by (simp add: a)
  have "\<And>c'. only_touches ({tracking_id s} \<union> tracking_id ` set rest) w
            (snd (retrySessions now rest c' w'))"
    by (rule only_touches_trans [OF f Cons.IH])
  then show ?case by (simp add: a split: sum.split)
qed

lemma open_ids_expireSessions: "open_ids (expireSessions ids now w) \<subseteq> open_ids w"
  by (auto simp add: open_ids_def expireSessions_def split: if_splits)

lemma scheduledHandler_frame:
  "only_touches (open_ids w) w (snd (scheduledHandler now w))"
proof -
  define w1 where "w1 = (if length (findExpired now w) > 0
                then expireSessions (map tracking_id (findExpired now w)) now w else w)"
  have 1: "only_touches (open_ids w) w w1"
  proof -
    have "set (map tracking_id (findExpired now w)) \<subseteq> open_ids w"
      by (auto simp add: findExpired_def open_ids_def)
    with expireSessions_frame
    have "only_touches (open_ids w) w (expireSessions (map tracking_id (findExpired now w)) now w)"
      by (rule only_touches_mono)
    then show ?thesis by (simp add: w1_def only_touches_refl)
  qed
  have "open_ids w1 \<subseteq> open_ids w"
    using open_ids_expireSessions by (simp add: w1_def)
  moreover have "tracking_id ` set (findPendingVerification w1) \<subseteq> open_ids w1"
    by (auto simp add: findPendingVerification_def open_ids_def)
  ultimately have "tracking_id ` set (findPendingVerification w1) \<subseteq> open_ids w" by blast
  with retrySessions_frame have 2: "\<And>c. only_touches (open_ids w) w1
       (snd (retrySessions now (findPendingVerification w1) c w1))"
    by (rule only_touches_mono)
  have "only_touches (open_ids w \<union> open_ids w) w
       (snd (retrySessions now (findPendingVerification w1)
              \<lparr>verifiedCount = 0, failedCount = 0, stillPendingCount = 0\<rparr> w1))"
    by (rule only_touches_trans [OF 1 2])
  moreover have "snd (scheduledHandler now w)
      = snd (retrySessions now (findPendingVerification w1)
              \<lparr>verifiedCount = 0, failedCount = 0, stillPendingCount = 0\<rparr> w1)"
    by (simp add: scheduledHandler_def Let_def w1_def split_beta)
  ultimately show ?thesis by simp
qed

lemma submitTrxID_frame: "only_touches {i} w (snd (submitTrxID i b now w))"
proof -
  have "\<And>x. only_touches ({i} \<union> {i}) w
          (snd (attemptVerification i now (tracking_submitTrxID i x now w)))"
    by (rule only_touches_trans [OF tracking_submitTrxID_frame attemptVerification_frame])
  then show ?thesis
    by (simp add: submitTrxID_def Let_def only_touches_refl split_beta
        split: option.split sum.split)
qed

section \<open>What the operations leave alone\<close>

text \<open>
  No operation of the verification service, the sweep or the submit route writes to the
  fulfillment log: none of them calls \<open>triggerFulfillment\<close>.
\<close>

lemma applyResult_other_tables:
  "receivers_table (applyResult i r now w) = receivers_table w"
  "transactions_table (applyResult i r now w) = transactions_table w"
  "fulfillment_log (applyResult i r now w) = fulfillment_log w"
  by (simp_all add: applyResult_def tracking_updateStatus_def)

lemma attemptVerification_other_tables:
  "receivers_table (snd (attemptVerification i now w)) = receivers_table w"
  "transactions_table (snd (attemptVerification i now w)) = transactions_table w"
  "fulfillment_log (snd (attemptVerification i now w)) = fulfillment_log w"
  by (simp_all add: attemptVerification_def Let_def applyResult_other_tables
      split: option.split sum.split)

lemma verifySessions_other_tables:
  "receivers_table (snd (verifySessions tx now sessions results w)) = receivers_table w
   \<and> transactions_table (snd (verifySessions tx now sessions results w)) = transactions_table w
   \<and> fulfillment_log (snd (verifySessions tx now sessions results w)) = fulfillment_log w"
  by (induction sessions arbitrary: results w)
     (simp_all add: applyResult_other_tables split: sum.split)

lemma verifyIncomingTransaction_other_tables:
  "receivers_table (snd (verifyIncomingTransaction x now w)) = receivers_table w"
  "transactions_table (snd (verifyIncomingTransaction x now w)) = transactions_table w"
  "fulfillment_log (snd (verifyIncomingTransaction x now w)) = fulfillment_log w"
  by (simp_all add: verifyIncomingTransaction_def Let_def verifySessions_other_tables
      split: option.split)

lemma retrySessions_fulfillment_log:
  "fulfillment_log (snd (retrySessions now sessions c w)) = fulfillment_log w"
proof (induction sessions arbitrary: c w)
  case Nil
  show ?case by simp
next
  case (Cons s rest)
  obtain res w' where a: "attemptVerification (tracking_id s) now w = (res, w')"
    by (cases "attemptVerification (tracking_id s) now w")
  have "fulfillment_log w' = fulfillment_log w"
    using attemptVerification_other_tables(3) [of "tracking_id s" now w] by (simp add: a)
  then show ?case by (simp add: a Cons.IH split: sum.split)
qed

lemma scheduledHandler_fulfillment_log:
  "fulfillment_log (snd (scheduledHandler now w)) = fulfillment_log w"
  by (simp add: scheduledHandler_def Let_def split_beta retrySessions_fulfillment_log
      expireSessions_def)

lemma submitTrxID_fulfillment_log:
  "fulfillment_log (snd (submitTrxID i b now w)) = fulfillment_log w"
  by (simp add: submitTrxID_def Let_def split_beta attemptVerification_other_tables
      tracking_submitTrxID_def split: option.split sum.split)

lemma getByID_in_table:
  "tracking_getByID i w = Some t \<Longrightarrow> t \<in> set (tracking_table w) \<and> tracking_id t = i"
  by (auto simp add: tracking_getByID_def find_Some_iff)

lemma terminal_not_open:
  assumes "distinct (map tracking_id (tracking_table w))"
    and "tracking_getByID i w = Some t" and "terminal (status t)"
  shows "i \<notin> open_ids w"
proof
  assume "i \<in> open_ids w"
  then obtain s where s: "s \<in> set (tracking_table w)" "tracking_id s = i"
      "status s = pending \<or> status s = submitted_trx"
    by (auto simp add: open_ids_def)
  have t: "t \<in> set (tracking_table w)" "tracking_id t = i"
    using getByID_in_table [OF assms(2)] by simp_all
  have "inj_on tracking_id (set (tracking_table w))"
    using assms(1) by (simp add: distinct_map)
  then have "s = t" using s t by (auto dest: inj_onD)
  then show False using s(3) assms(3) by (auto simp add: terminal_def)
qed

lemma attemptVerification_verified:
  assumes "tracking_getByID i w = Some t" and "status t = verified"
  shows "attemptVerification i now w =
           (Inr (if user_entered_trxid t = None \<or> user_entered_trxid t = Some []
                 then \<lparr>success = False, result_status = pending,
                       message = ''No Transaction ID submitted yet'',
                       result_matched_transaction_id = None,
                       failure_reason = Some UserEnteredTrxidIsNull\<rparr>
                 else \<lparr>success = True, result_status = verified,
                       message = ''Already verified'',
                       result_matched_transaction_id = or_null (matched_transaction_id t),
                       failure_reason = None\<rparr>), w)"
  using assms by (simp add: attemptVerification_def)

lemma submitTrxID_verified:
  assumes "tracking_getByID i w = Some t" and "status t = verified \<or> now > expires_at t"
  shows "snd (submitTrxID i b now w) = w"
  using assms by (auto simp add: submitTrxID_def Let_def split: option.split)

section \<open>C4: a verified session is never touched again\<close>

text \<open>
  C4. For a session that is already verified (in a table whose \<open>tracking_id\<close> is a
  key): \<open>attemptVerification\<close> returns at once (the "Already verified" verdict, or the
  "No Transaction ID" verdict if the session has no reference) without looking up any
  receipt and leaves the whole state as it was; \<open>verifyIncomingTransaction\<close>, for any
  receipt, does not evaluate the session (it is in no result of \<open>findByTrxID\<close>) and
  leaves its row, so its status, matched_transaction_id and notes, unchanged; neither
  adds to the fulfillment log.
\<close>

theorem C4_verified_is_noop:
  assumes "distinct (map tracking_id (tracking_table w))"
    and "tracking_getByID i w = Some t" and "status t = verified"
  shows "attemptVerification i now w =
           (Inr (if user_entered_trxid t = None \<or> user_entered_trxid t = Some []
                 then \<lparr>success = False, result_status = pending,
                       message = ''No Transaction ID submitted yet'',
                       result_matched_transaction_id = None,
                       failure_reason = Some UserEnteredTrxidIsNull\<rparr>
                 else \<lparr>success = True, result_status = verified,
                       message = ''Already verified'',
                       result_matched_transaction_id = or_null (matched_transaction_id t),
                       failure_reason = None\<rparr>), w)
       \<and> tracking_getByID i (snd (verifyIncomingTransaction x now w)) = Some t
       \<and> t \<notin> set (tracking_findByTrxID r w)
       \<and> fulfillment_log (snd (verifyIncomingTransaction x now w)) = fulfillment_log w"
proof -
  have "terminal (status t)" using assms(3) by (simp add: terminal_def)
  then have "i \<notin> open_ids w" using terminal_not_open assms(1,2) by blast
  then have "tracking_getByID i (snd (verifyIncomingTransaction x now w)) = tracking_getByID i w"
    using only_touches_getByID [OF verifyIncomingTransaction_frame] by blast
  moreover have "t \<notin> set (tracking_findByTrxID r w)"
    using assms(3) by (simp add: tracking_findByTrxID_def)
  ultimately show ?thesis
    using attemptVerification_verified [OF assms(2,3)] assms(2)
    by (simp add: verifyIncomingTransaction_other_tables)
qed

theorem C4_verified_is_noop_witness:
  "attemptVerification ''T1'' 1003000 world_T1_verified =
     (Inr \<lparr>success = True, result_status = verified, message = ''Already verified'',
           result_matched_transaction_id = Some ''TX1'', failure_reason = None\<rparr>,
      world_T1_verified)
   \<and> tracking_getByID ''T1'' (snd (verifyIncomingTransaction ''TX1'' 1003000 world_T1_verified))
       = Some session_T1_verified
   \<and> session_T1_verified \<notin> set (tracking_findByTrxID (js ''ABC123'') world_T1_verified)
   \<and> fulfillment_log (snd (verifyIncomingTransaction ''TX1'' 1003000 world_T1_verified))
       = fulfillment_log world_T1_verified"
proof -
  have d: "distinct (map tracking_id (tracking_table world_T1_verified))" by code_simp
  have g: "tracking_getByID ''T1'' world_T1_verified = Some session_T1_verified" by code_simp
  have s: "status session_T1_verified = verified" by code_simp
  have u: "user_entered_trxid session_T1_verified = Some (js ''ABC123'')" by code_simp
  have m: "or_null (matched_transaction_id session_T1_verified) = Some ''TX1''" by code_simp
  have e: "js ''ABC123'' \<noteq> []" by (simp add: js_def)
  show ?thesis
    using C4_verified_is_noop [OF d g s, of 1003000 "''TX1''" "js ''ABC123''"]
    by (simp add: u m e)
qed

section \<open>C1: two sessions that declare the same reference\<close>

text \<open>
  C1. In the state \<open>world_two_sessions\<close> the sessions \<open>T1\<close> and \<open>T2\<close> have declared
  the reference of the one receipt \<open>TX1\<close>, which matches both on amount, receiver and
  time. After \<open>verifyIncomingTransaction\<close> for the receipt both sessions are verified and
  matched to \<open>TX1\<close>; the same holds after \<open>attemptVerification\<close> for \<open>T1\<close> and then
  for \<open>T2\<close>. Neither ends as failed with a duplicate reason.
\<close>

theorem C1_both_sessions_verified:
  "map (\<lambda>t. (tracking_id t, status t, matched_transaction_id t))
       (tracking_table (snd (verifyIncomingTransaction ''TX1'' 1001000 world_two_sessions)))
     = [(''T1'', verified, Some ''TX1''), (''T2'', verified, Some ''TX1'')]
   \<and> map (\<lambda>t. (tracking_id t, status t, matched_transaction_id t))
       (tracking_table (snd (attemptVerification ''T2'' 1002000
                              (snd (attemptVerification ''T1'' 1001000 world_two_sessions)))))
     = [(''T1'', verified, Some ''TX1''), (''T2'', verified, Some ''TX1'')]"
  by code_simp

section \<open>C2: the transition to verified and the fulfillment log\<close>

text \<open>
  C2. In the state \<open>world_two_sessions\<close>, \<open>attemptVerification\<close> moves \<open>T1\<close> to
  verified and \<open>verifyIncomingTransaction\<close> moves \<open>T1\<close> and \<open>T2\<close> to verified, and
  after either the fulfillment log is still empty: the transition to verified happens
  without a call of \<open>triggerFulfillment\<close>.
\<close>

theorem C2_verified_without_fulfillment:
  "map (\<lambda>t. (tracking_id t, status t))
       (tracking_table (snd (attemptVerification ''T1'' 1001000 world_two_sessions)))
     = [(''T1'', verified), (''T2'', submitted_trx)]
   \<and> fulfillment_log (snd (attemptVerification ''T1'' 1001000 world_two_sessions)) = []
   \<and> map (\<lambda>t. (tracking_id t, status t))
       (tracking_table (snd (verifyIncomingTransaction ''TX1'' 1001000 world_two_sessions)))
     = [(''T1'', verified), (''T2'', verified)]
   \<and> fulfillment_log (snd (verifyIncomingTransaction ''TX1'' 1001000 world_two_sessions)) = []"
  by code_simp

section \<open>C5: the verdict when the receipt is already claimed\<close>

text \<open>
  C5. \<open>world_T1_verified\<close> is the state that \<open>attemptVerification\<close> for \<open>T1\<close> leaves:
  \<open>T1\<close> is verified and its resolved receipt is \<open>TX1\<close>. There the exclusivity rule, as
  the specification words it, fails for \<open>T2\<close> and the receipt \<open>TX1\<close>
  (\<open>claimedByOther\<close>), and \<open>verifyPayment\<close> still returns the verified verdict for
  them. (The lemmas \<open>verifyPayment_rule1\<close> to \<open>verifyPayment_rule4\<close> and
  \<open>verifyPayment_accept\<close> give the verdict in general: the first of the rules 1 to 4
  that fails decides the reason, and the verdict is verified when all four pass.)
\<close>

theorem C5_verified_despite_claimed_receipt:
  "snd (attemptVerification ''T1'' 1001000 world_two_sessions) = world_T1_verified
   \<and> claimedByOther session_T2 receipt_ABC world_T1_verified
   \<and> verifyPayment session_T2 receipt_ABC world_T1_verified
       = Inr \<lparr>success = True, result_status = verified,
              message = ''Payment verified successfully'',
              result_matched_transaction_id = Some ''TX1'', failure_reason = None\<rparr>"
  by code_simp

section \<open>C3: which statuses are terminal\<close>

text \<open>
  C3, as stated, fails: the session \<open>T3\<close> is failed and still inside its validity
  window; the submit route, given the reference of a matching receipt, leaves it verified,
  and given a reference without receipt leaves it submitted_trx. Called for a canceled
  session that has a reference, \<open>attemptVerification\<close> leaves it verified.
\<close>

theorem C3_counterexample:
  "tracking_getByID ''T3'' world_failed_session = Some session_T3_failed
   \<and> status session_T3_failed = failed
   \<and> expires_at session_T3_failed = 4500000
   \<and> map_option status
        (tracking_getByID ''T3''
           (snd (submitTrxID ''T3'' (Some (js ''abc123'')) 1001000 world_failed_session)))
       = Some verified
   \<and> map_option status
        (tracking_getByID ''T3''
           (snd (submitTrxID ''T3'' (Some (js ''nosuchtrx'')) 1001000 world_failed_session)))
       = Some submitted_trx
   \<and> map_option status
        (tracking_getByID ''T1''
           (snd (attemptVerification ''T1'' 1001000
                   (world_two_sessions\<lparr>tracking_table := [session_T1\<lparr>status := canceled\<rparr>]\<rparr>))))
       = Some verified"
  by code_simp

text \<open>
  C3, amended. For a session \<open>t\<close> stored under the key \<open>i\<close>: if its status is
  verified, failed, expired or canceled, then \<open>verifyIncomingTransaction\<close> (for any
  receipt) and the sweep leave its row unchanged; if its status is verified, then
  \<open>attemptVerification\<close> and the submit route (for any session) leave its row unchanged;
  if its status is terminal, the submit route leaves its row unchanged when it is addressed
  to another session or when \<open>expires_at\<close> has passed, and \<open>attemptVerification\<close>
  leaves it unchanged when addressed to another session.
\<close>

theorem C3_terminal_statuses_amended:
  assumes "distinct (map tracking_id (tracking_table w))"
    and "tracking_getByID i w = Some t"
  shows "(terminal (status t) \<longrightarrow>
            tracking_getByID i (snd (verifyIncomingTransaction x now w)) = Some t
          \<and> tracking_getByID i (snd (scheduledHandler now w)) = Some t)
       \<and> (status t = verified \<longrightarrow>
            tracking_getByID i (snd (attemptVerification j now w)) = Some t
          \<and> tracking_getByID i (snd (submitTrxID j b now w)) = Some t)
       \<and> (terminal (status t) \<and> (j \<noteq> i \<or> now > expires_at t) \<longrightarrow>
            tracking_getByID i (snd (submitTrxID j b now w)) = Some t)
       \<and> (terminal (status t) \<and> j \<noteq> i \<longrightarrow>
            tracking_getByID i (snd (attemptVerification j now w)) = Some t)"
proof -
  have other_a: "tracking_getByID i (snd (attemptVerification j now w)) = Some t" if "j \<noteq> i"
    using only_touches_getByID [OF attemptVerification_frame [where i = j and w = w and now = now], where i = i] that assms(2)
    by simp
  have other_s: "tracking_getByID i (snd (submitTrxID j b now w)) = Some t" if "j \<noteq> i"
    using only_touches_getByID [OF submitTrxID_frame [where i = j and w = w and b = b and now = now], where i = i] that assms(2)
    by simp
  have same_a: "tracking_getByID i (snd (attemptVerification i now w)) = Some t"
    if "status t = verified"
    using attemptVerification_verified [OF assms(2) that] assms(2) by simp
  have same_s: "tracking_getByID i (snd (submitTrxID i b now w)) = Some t"
    if "status t = verified \<or> now > expires_at t"
    using submitTrxID_verified [OF assms(2) that] assms(2) by simp
  have 1: "tracking_getByID i (snd (verifyIncomingTransaction x now w)) = Some t
          \<and> tracking_getByID i (snd (scheduledHandler now w)) = Some t"
    if "terminal (status t)"
  proof -
    have "i \<notin> open_ids w" using terminal_not_open [OF assms that] .
    then show ?thesis
      using only_touches_getByID [OF verifyIncomingTransaction_frame [where w = w and x = x and now = now], where i = i]
        only_touches_getByID [OF scheduledHandler_frame [where w = w and now = now], where i = i] assms(2)
      by simp
  qed
  have 2: "tracking_getByID i (snd (attemptVerification j now w)) = Some t
          \<and> tracking_getByID i (snd (submitTrxID j b now w)) = Some t"
    if "status t = verified"
    using that other_a other_s same_a same_s by (cases "j = i") simp_all
  have 3: "tracking_getByID i (snd (submitTrxID j b now w)) = Some t"
    if "j \<noteq> i \<or> now > expires_at t"
    using that other_s same_s by (cases "j = i") simp_all
  show ?thesis using 1 2 3 other_a by blast
qed

theorem C3_terminal_statuses_amended_witness:
  "tracking_getByID ''T1'' (snd (verifyIncomingTransaction ''TX1'' 1003000 world_T1_verified))
     = Some session_T1_verified
   \<and> tracking_getByID ''T1'' (snd (scheduledHandler 1003000 world_T1_verified))
     = Some session_T1_verified
   \<and> tracking_getByID ''T1'' (snd (attemptVerification ''T1'' 1003000 world_T1_verified))
     = Some session_T1_verified
   \<and> tracking_getByID ''T1'' (snd (submitTrxID ''T1'' (Some (js ''XYZ'')) 1003000 world_T1_verified))
     = Some session_T1_verified"
proof -
  have d: "distinct (map tracking_id (tracking_table world_T1_verified))" by code_simp
  have g: "tracking_getByID ''T1'' world_T1_verified = Some session_T1_verified" by code_simp
  have s: "status session_T1_verified = verified" by code_simp
  show ?thesis
    using C3_terminal_statuses_amended [OF d g, of "''TX1''" 1003000 "''T1''" "Some (js ''XYZ'')"]
    by (simp add: s terminal_def)
qed

section \<open>The invariant of the reachable states\<close>

lemma hasReceipt_cong:
  "user_entered_trxid t' = user_entered_trxid t \<Longrightarrow> transactions_table w' = transactions_table w
   \<Longrightarrow> hasReceipt t' w' = hasReceipt t w"
  by (simp add: hasReceipt_def transactions_getByTrxID_def)

lemma same_id_same_row:
  assumes "distinct (map tracking_id xs)" and "t \<in> set xs" and "t' \<in> set xs"
    and "tracking_id t = tracking_id t'"
  shows "t = t'"
proof -
  have "inj_on tracking_id (set xs)" using assms(1) by (simp add: distinct_map)
  then show ?thesis using assms(2,3,4) by (auto dest: inj_onD)
qed

lemma invariant_updateStatus:
  assumes inv: "store_invariant w"
    and r: "st = verified \<longrightarrow> (\<forall>t \<in> set (tracking_table w). tracking_id t = i \<longrightarrow> hasReceipt t w)"
  shows "store_invariant (tracking_updateStatus i st m n now w)"
proof -
  define f :: "Tracking \<Rightarrow> Tracking" where "f = (\<lambda>t. if tracking_id t = i
                   then t\<lparr>status := st, updated_at := now,
                           matched_transaction_id := or_null m,
                           tracking_notes := note_or_null n\<rparr>
                   else t)"
  define w' where "w' = tracking_updateStatus i st m n now w"
  have tab: "tracking_table w' = map f (tracking_table w)"
    and txs: "transactions_table w' = transactions_table w"
    by (simp_all add: w'_def f_def tracking_updateStatus_def)
  have ids: "map tracking_id (tracking_table w') = map tracking_id (tracking_table w)"
    by (simp add: tab f_def)
  have 1: "distinct (map tracking_id (tracking_table w'))"
    using inv by (simp add: ids store_invariant_def)
  have 2: "\<forall>tx \<in> set (transactions_table w'). normalizeTrxID (trxid tx) = trxid tx"
    using inv by (simp add: txs store_invariant_def)
  have 3: "hasReceipt t' w'" if m: "t' \<in> set (tracking_table w')" and v: "status t' = verified"
    for t'
  proof -
    from m obtain t where t: "t \<in> set (tracking_table w)" "t' = f t" by (auto simp add: tab)
    have u: "user_entered_trxid t' = user_entered_trxid t" by (simp add: t(2) f_def)
    show ?thesis
    proof (cases "tracking_id t = i")
      case True
      then have "status t' = st" by (simp add: t(2) f_def)
      with v r t(1) True have "hasReceipt t w" by simp
      then show ?thesis using hasReceipt_cong [OF u txs] by simp
    next
      case False
      then have "t' = t" by (simp add: t(2) f_def)
      with v inv t(1) have "hasReceipt t w" by (simp add: store_invariant_def)
      then show ?thesis using hasReceipt_cong [OF u txs] by simp
    qed
  qed
  show ?thesis
    unfolding w'_def [symmetric] store_invariant_def using 1 2 3 by blast
qed

lemma invariant_applyResult:
  assumes "store_invariant w"
    and "success r \<longrightarrow> (\<forall>t \<in> set (tracking_table w). tracking_id t = i \<longrightarrow> hasReceipt t w)"
  shows "store_invariant (applyResult i r now w)"
  using assms by (simp add: applyResult_def invariant_updateStatus)

lemma applyResult_rows:
  assumes "t' \<in> set (tracking_table (applyResult i r now w))"
  shows "\<exists>t \<in> set (tracking_table w).
           tracking_id t' = tracking_id t \<and> user_entered_trxid t' = user_entered_trxid t"
  using assms
  by (auto simp add: applyResult_def tracking_updateStatus_def split: if_splits)

lemma invariant_attemptVerification:
  assumes inv: "store_invariant w"
  shows "store_invariant (snd (attemptVerification i now w))"
proof (cases "tracking_getByID i w")
  case None
  then show ?thesis using inv by (simp add: attemptVerification_def)
next
  case (Some tracking)
  have m: "tracking \<in> set (tracking_table w)" and k: "tracking_id tracking = i"
    using getByID_in_table [OF Some] by simp_all
  define x where "x = normalizeTrxID (case user_entered_trxid tracking of None \<Rightarrow> [] | Some x \<Rightarrow> x)"
  show ?thesis
  proof (cases "transactions_getByTrxID x w")
    case None
    then show ?thesis
      using inv Some by (simp add: attemptVerification_def Let_def x_def)
  next
    case tx: (Some transaction)
    have h: "\<forall>t \<in> set (tracking_table w). tracking_id t = i \<longrightarrow> hasReceipt t w"
    proof (intro ballI impI)
      fix t assume "t \<in> set (tracking_table w)" "tracking_id t = i"
      then have "t = tracking"
        using same_id_same_row [of "tracking_table w" t tracking] inv m k
        by (simp add: store_invariant_def)
      then show "hasReceipt t w" using tx by (simp add: hasReceipt_def x_def)
    qed
    have "store_invariant (applyResult i r now w)" for r
      using invariant_applyResult [OF inv] h by blast
    then show ?thesis
      using inv Some tx
      by (simp add: attemptVerification_def Let_def x_def [symmetric] split: sum.split)
  qed
qed

lemma invariant_verifySessions:
  "store_invariant w
   \<Longrightarrow> (\<forall>s \<in> set sessions. \<forall>t \<in> set (tracking_table w).
          tracking_id t = tracking_id s \<longrightarrow> hasReceipt t w)
   \<Longrightarrow> store_invariant (snd (verifySessions tx now sessions results w))"
proof (induction sessions arbitrary: results w)
  case Nil
  then show ?case by simp
next
  case (Cons s rest)
  show ?case
  proof (cases "verifyPayment s tx w")
    case (Inl e)
    then show ?thesis using Cons.prems(1) by simp
  next
    case (Inr r)
    define w' where "w' = applyResult (tracking_id s) r now w"
    have 1: "store_invariant w'"
      unfolding w'_def using Cons.prems by (intro invariant_applyResult) simp_all
    have txs: "transactions_table w' = transactions_table w"
      by (simp add: w'_def applyResult_other_tables)
    have 2: "\<forall>s' \<in> set rest. \<forall>t' \<in> set (tracking_table w').
               tracking_id t' = tracking_id s' \<longrightarrow> hasReceipt t' w'"
    proof (intro ballI impI)
      fix s' t' assume s': "s' \<in> set rest" and t': "t' \<in> set (tracking_table w')"
        and e: "tracking_id t' = tracking_id s'"
      from t' obtain t where t: "t \<in> set (tracking_table w)" "tracking_id t' = tracking_id t"
          "user_entered_trxid t' = user_entered_trxid t"
        unfolding w'_def using applyResult_rows by blast
      have "hasReceipt t w" using Cons.prems(2) s' t(1,2) e by simp
      then show "hasReceipt t' w'" using hasReceipt_cong [OF t(3) txs] by simp
    qed
    show ?thesis
      using Cons.IH [OF 1 2] by (simp add: Inr w'_def)
  qed
qed

lemma stored_receipt_found:
  "tx \<in> set (transactions_table w) \<Longrightarrow> transactions_getByTrxID (trxid tx) w \<noteq> None"
  by (auto simp add: transactions_getByTrxID_def find_None_iff)

lemma invariant_verifyIncomingTransaction:
  assumes inv: "store_invariant w"
  shows "store_invariant (snd (verifyIncomingTransaction x now w))"
proof (cases "transactions_getByID x w")
  case None
  then show ?thesis using inv by (simp add: verifyIncomingTransaction_def)
next
  case (Some tx)
  then have m: "tx \<in> set (transactions_table w)"
    by (auto simp add: transactions_getByID_def find_Some_iff)
  then have n: "normalizeTrxID (trxid tx) = trxid tx"
    using inv by (simp add: store_invariant_def)
  have h: "\<forall>s \<in> set (tracking_findByTrxID (normalizeTrxID (trxid tx)) w).
             \<forall>t \<in> set (tracking_table w). tracking_id t = tracking_id s \<longrightarrow> hasReceipt t w"
  proof (intro ballI impI)
    fix s t assume s: "s \<in> set (tracking_findByTrxID (normalizeTrxID (trxid tx)) w)"
      and t: "t \<in> set (tracking_table w)" and e: "tracking_id t = tracking_id s"
    from s have sm: "s \<in> set (tracking_table w)"
      and su: "user_entered_trxid s = Some (normalizeTrxID (trxid tx))"
      by (simp_all add: tracking_findByTrxID_def)
    have "t = s"
      using same_id_same_row [OF _ t sm e] inv by (simp add: store_invariant_def)
    then show "hasReceipt t w"
      using stored_receipt_found [OF m] by (simp add: hasReceipt_def su n)
  qed
  show ?thesis
    using inv invariant_verifySessions [OF inv h]
    by (simp add: verifyIncomingTransaction_def Some Let_def)
qed

lemma invariant_rows_closed:
  fixes f :: "Tracking \<Rightarrow> Tracking"
  assumes inv: "store_invariant w"
    and tab: "tracking_table w' = map f (tracking_table w)"
    and txs: "transactions_table w' = transactions_table w"
    and f: "\<And>t. tracking_id (f t) = tracking_id t \<and> (f t = t \<or> status (f t) \<noteq> verified)"
  shows "store_invariant w'"
proof -
  have "map tracking_id (tracking_table w') = map tracking_id (tracking_table w)"
    by (simp add: tab f)
  then have 1: "distinct (map tracking_id (tracking_table w'))"
    using inv by (simp add: store_invariant_def)
  have 2: "\<forall>tx \<in> set (transactions_table w'). normalizeTrxID (trxid tx) = trxid tx"
    using inv by (simp add: txs store_invariant_def)
  have 3: "hasReceipt t' w'" if m: "t' \<in> set (tracking_table w')" and v: "status t' = verified"
    for t'
  proof -
    from m obtain t where t: "t \<in> set (tracking_table w)" "t' = f t" by (auto simp add: tab)
    with f [of t] v have "t' = t" by auto
    with v inv t(1) have "hasReceipt t w" by (simp add: store_invariant_def)
    then show ?thesis using \<open>t' = t\<close> hasReceipt_cong [OF refl txs] by simp
  qed
  show ?thesis unfolding store_invariant_def using 1 2 3 by blast
qed

lemma invariant_tracking_submitTrxID:
  assumes "store_invariant w"
  shows "store_invariant (tracking_submitTrxID i x now w)"
  by (rule invariant_rows_closed [OF assms, where f = "\<lambda>t. if tracking_id t = i
                   then t\<lparr>user_entered_trxid := Some x, status := submitted_trx,
                           updated_at := now\<rparr>
                   else t"])
     (simp_all add: tracking_submitTrxID_def)

lemma invariant_expireSessions:
  assumes "store_invariant w"
  shows "store_invariant (expireSessions ids now w)"
proof (cases "ids = []")
  case True
  then show ?thesis using assms by (simp add: expireSessions_def)
next
  case False
  show ?thesis
    by (rule invariant_rows_closed [OF assms, where f = "\<lambda>t. if tracking_id t \<in> set ids
                         then t\<lparr>status := expired, updated_at := now\<rparr>
                         else t"])
       (simp_all add: expireSessions_def False)
qed

lemma invariant_submitTrxID:
  assumes "store_invariant w"
  shows "store_invariant (snd (submitTrxID i b now w))"
proof -
  have "store_invariant (snd (attemptVerification i now (tracking_submitTrxID i x now w)))" for x
    by (intro invariant_attemptVerification invariant_tracking_submitTrxID assms)
  then show ?thesis
    using assms
    by (simp add: submitTrxID_def Let_def split_beta split: option.split sum.split)
qed

lemma invariant_retrySessions:
  "store_invariant w \<Longrightarrow> store_invariant (snd (retrySessions now sessions c w))"
proof (induction sessions arbitrary: c w)
  case Nil
  then show ?case by simp
next
  case (Cons s rest)
  obtain res w' where a: "attemptVerification (tracking_id s) now w = (res, w')"
    by (cases "attemptVerification (tracking_id s) now w")
  have "store_invariant w'"
    using invariant_attemptVerification [OF Cons.prems, of "tracking_id s" now] by (simp add: a)
  then have "\<And>c'. store_invariant (snd (retrySessions now rest c' w'))" by (rule Cons.IH)
  then show ?case by (simp add: a split: sum.split)
qed

lemma invariant_scheduledHandler:
  assumes "store_invariant w"
  shows "store_invariant (snd (scheduledHandler now w))"
proof -
  define w1 where "w1 = (if length (findExpired now w) > 0
                then expireSessions (map tracking_id (findExpired now w)) now w else w)"
  have "store_invariant w1"
    using assms invariant_expireSessions [OF assms] by (simp add: w1_def)
  then have "store_invariant (snd (retrySessions now (findPendingVerification w1)
              \<lparr>verifiedCount = 0, failedCount = 0, stillPendingCount = 0\<rparr> w1))"
    by (rule invariant_retrySessions)
  moreover have "snd (scheduledHandler now w)
      = snd (retrySessions now (findPendingVerification w1)
              \<lparr>verifiedCount = 0, failedCount = 0, stillPendingCount = 0\<rparr> w1)"
    by (simp add: scheduledHandler_def Let_def w1_def split_beta)
  ultimately show ?thesis by simp
qed

lemma invariant_tracking_create:
  assumes "store_invariant w"
  shows "store_invariant (snd (tracking_create d ident now w))"
  using assms
  by (auto simp add: tracking_create_def Let_def store_invariant_def hasReceipt_def
      transactions_getByTrxID_def)

lemma find_append_kept: "find P xs \<noteq> None \<Longrightarrow> find P (xs @ ys) \<noteq> None"
  by (induction xs) auto

lemma invariant_transactions_create:
  assumes inv: "store_invariant w" and n: "d_trxid d = normalizeTrxID x"
  shows "store_invariant (snd (transactions_create d ident now w))"
proof -
  define tx where "tx = \<lparr>tx_id = ident, trxid = d_trxid d, amount_cents = d_amount_cents d,
                          receiver_phone = d_receiver_phone d,
                          sender_phone = Some (d_sender_phone d),
                          received_at = d_received_at d, tx_created_at = now\<rparr>"
  have nt: "normalizeTrxID (trxid tx) = trxid tx"
    by (simp add: tx_def n normalizeTrxID_idem)
  define w' where "w' = w\<lparr>transactions_table := transactions_table w @ [tx]\<rparr>"
  have tab: "tracking_table w' = tracking_table w"
    and txs: "transactions_table w' = transactions_table w @ [tx]"
    by (simp_all add: w'_def)
  have 1: "distinct (map tracking_id (tracking_table w'))"
    using inv by (simp add: tab store_invariant_def)
  have 2: "\<forall>tx \<in> set (transactions_table w'). normalizeTrxID (trxid tx) = trxid tx"
    using inv nt by (auto simp add: txs store_invariant_def)
  have 3: "hasReceipt t w'" if m: "t \<in> set (tracking_table w')" and v: "status t = verified"
    for t
  proof -
    have "hasReceipt t w" using inv m v by (simp add: tab store_invariant_def)
    then show ?thesis
      unfolding hasReceipt_def transactions_getByTrxID_def txs by (rule find_append_kept)
  qed
  have "store_invariant w'"
    unfolding store_invariant_def using 1 2 3 by blast
  then have "store_invariant (w\<lparr>transactions_table := transactions_table w @ [tx]\<rparr>)"
    by (simp add: w'_def)
  then show ?thesis
    using inv
    by (auto simp add: transactions_create_def insertTransaction_def Let_def tx_def
        split: option.split)
qed

lemma reachable_invariant: "reachable w \<Longrightarrow> store_invariant w"
proof (induction rule: reachable.induct)
  case (initial rs)
  show ?case by (simp add: store_invariant_def)
next
  case (session_created w d ident now)
  then show ?case by (simp add: invariant_tracking_create)
next
  case (receipt_ingested w d x ident now)
  then show ?case by (simp add: invariant_transactions_create)
next
  case (reference_submitted w i b now)
  then show ?case by (simp add: invariant_submitTrxID)
next
  case (verification_attempted w i now)
  then show ?case by (simp add: invariant_attemptVerification)
next
  case (receipt_verified w x now)
  then show ?case by (simp add: invariant_verifyIncomingTransaction)
next
  case (swept w now)
  then show ?case by (simp add: invariant_scheduledHandler)
qed

lemma attemptVerification_no_receipt:
  assumes "tracking_getByID i w = Some t"
    and "user_entered_trxid t = Some x"
    and "transactions_getByTrxID (normalizeTrxID x) w = None"
    and "status t \<noteq> verified"
  shows "snd (attemptVerification i now w) = w
       \<and> (\<exists>r. fst (attemptVerification i now w) = Inr r \<and> \<not> success r
               \<and> result_status r = pending)"
  using assms by (simp add: attemptVerification_def Let_def)

section \<open>C7: no receipt for the declared reference\<close>

text \<open>
  C7. In every state the code can reach, for a session with a declared reference for
  which the store has no receipt under the normalised reference: \<open>attemptVerification\<close>
  returns a result that is not a success and has status pending, and the state after the
  call is the state before it (no status, matched_transaction_id or notes is written; in
  particular no failed status).
\<close>

theorem C7_no_receipt_is_inconclusive:
  assumes "reachable w"
    and "tracking_getByID i w = Some t"
    and "user_entered_trxid t = Some x"
    and "transactions_getByTrxID (normalizeTrxID x) w = None"
  shows "snd (attemptVerification i now w) = w
       \<and> (\<exists>r. fst (attemptVerification i now w) = Inr r \<and> \<not> success r
               \<and> result_status r = pending)"
proof -
  have inv: "store_invariant w" using assms(1) by (rule reachable_invariant)
  have "t \<in> set (tracking_table w)" using getByID_in_table [OF assms(2)] by simp
  moreover have "\<not> hasReceipt t w" using assms(3,4) by (simp add: hasReceipt_def)
  ultimately have "status t \<noteq> verified" using inv by (auto simp add: store_invariant_def)
  with assms(2,3,4) show ?thesis by (rule attemptVerification_no_receipt)
qed

theorem C7_no_receipt_is_inconclusive_witness:
  "snd (attemptVerification ''T1'' 1003000 world_no_receipts) = world_no_receipts
   \<and> fst (attemptVerification ''T1'' 1003000 world_no_receipts)
       = Inr \<lparr>success = False, result_status = pending, message = ''Transaction not found yet'',
              result_matched_transaction_id = None,
              failure_reason = Some (NoTransactionWithTrxID (js ''ABC123''))\<rparr>"
proof -
  have c: "world_no_receipts
           = snd (submitTrxID ''T1'' (Some (js '' abc123 '')) 950000
                    (snd (tracking_create new_session_T1 ''T1'' 900000 world_empty)))"
    by code_simp
  have r: "reachable world_no_receipts"
    unfolding c world_empty_def
    by (intro reachable.reference_submitted reachable.session_created reachable.initial)
  have g: "tracking_getByID ''T1'' world_no_receipts = Some session_T1" by code_simp
  have u: "user_entered_trxid session_T1 = Some (js ''ABC123'')" by code_simp
  have n: "transactions_getByTrxID (normalizeTrxID (js ''ABC123'')) world_no_receipts = None"
    by code_simp
  have e: "fst (attemptVerification ''T1'' 1003000 world_no_receipts)
       = Inr \<lparr>success = False, result_status = pending, message = ''Transaction not found yet'',
              result_matched_transaction_id = None,
              failure_reason = Some (NoTransactionWithTrxID (js ''ABC123''))\<rparr>" by code_simp
  show ?thesis
    using C7_no_receipt_is_inconclusive [OF r g u n, of 1003000] e by simp
qed

section \<open>C8: ingestion is idempotent on the reference\<close>

lemma find_append_fresh:
  "\<forall>y \<in> set xs. \<not> P y \<Longrightarrow> P x \<Longrightarrow> find P (xs @ [x]) = Some x"
  by (induction xs) auto

lemma transactions_create_existing:
  assumes "transactions_getByTrxID (d_trxid d) w = Some existing"
  shows "transactions_create d ident now w = (Inr (existing, False), w)"
proof -
  have "existing \<in> set (transactions_table w) \<and> trxid existing = d_trxid d"
    using assms by (auto simp add: transactions_getByTrxID_def find_Some_iff)
  then have "d_trxid d \<in> set (map trxid (transactions_table w))"
    by (metis image_eqI set_map)
  then show ?thesis
    using assms by (simp add: transactions_create_def insertTransaction_def Let_def)
qed

text \<open>
  C8. For a reference that the store does not hold yet, a fresh identifier and a
  recognised receiver: the first \<open>create\<close> inserts the receipt and returns it with
  \<open>isNew = True\<close>; a second \<open>create\<close> with the same fields (whatever identifier and
  clock reading it draws) returns the same receipt, identifier and fields, with
  \<open>isNew = False\<close> and leaves the store as the first call left it; the store holds
  exactly one row with the reference.
\<close>

theorem C8_idempotent_ingestion:
  assumes "d_trxid d \<notin> set (map trxid (transactions_table w))"
    and "id1 \<notin> set (map tx_id (transactions_table w))"
    and "d_receiver_phone d \<in> set (map phone (receivers_table w))"
    and "tx = \<lparr>tx_id = id1, trxid = d_trxid d, amount_cents = d_amount_cents d,
               receiver_phone = d_receiver_phone d, sender_phone = Some (d_sender_phone d),
               received_at = d_received_at d, tx_created_at = now1\<rparr>"
    and "w1 = w\<lparr>transactions_table := transactions_table w @ [tx]\<rparr>"
  shows "transactions_create d id1 now1 w = (Inr (tx, True), w1)
       \<and> transactions_create d id2 now2 w1 = (Inr (tx, False), w1)
       \<and> filter (\<lambda>r. trxid r = d_trxid d) (transactions_table w1) = [tx]"
proof -
  have 1: "transactions_create d id1 now1 w = (Inr (tx, True), w1)"
    using assms by (simp add: transactions_create_def insertTransaction_def Let_def)
  have f: "\<forall>y \<in> set (transactions_table w). \<not> trxid y = d_trxid d"
  proof
    fix y assume "y \<in> set (transactions_table w)"
    then have "trxid y \<in> set (map trxid (transactions_table w))" by simp
    then show "\<not> trxid y = d_trxid d" using assms(1) by metis
  qed
  have g: "transactions_getByTrxID (d_trxid d) w1 = Some tx"
    using find_append_fresh [of "transactions_table w" "\<lambda>t. trxid t = d_trxid d" tx] f
    by (simp add: transactions_getByTrxID_def assms(4,5))
  have 2: "transactions_create d id2 now2 w1 = (Inr (tx, False), w1)"
    using g by (simp add: transactions_create_def insertTransaction_def Let_def assms(4,5))
  have 3: "filter (\<lambda>r. trxid r = d_trxid d) (transactions_table w1) = [tx]"
    using f by (simp add: assms(4,5))
  show ?thesis using 1 2 3 by simp
qed

theorem C8_idempotent_ingestion_witness:
  "transactions_create sms_ABC ''TX1'' 1000500 world_no_receipts
     = (Inr (receipt_ABC, True), world_no_receipts\<lparr>transactions_table := [receipt_ABC]\<rparr>)
   \<and> transactions_create sms_ABC ''TX9'' 1000900
        (world_no_receipts\<lparr>transactions_table := [receipt_ABC]\<rparr>)
     = (Inr (receipt_ABC, False), world_no_receipts\<lparr>transactions_table := [receipt_ABC]\<rparr>)
   \<and> filter (\<lambda>r. trxid r = js ''ABC123'')
        (transactions_table (world_no_receipts\<lparr>transactions_table := [receipt_ABC]\<rparr>))
     = [receipt_ABC]"
proof -
  have a: "d_trxid sms_ABC \<notin> set (map trxid (transactions_table world_no_receipts))"
    by code_simp
  have b: "''TX1'' \<notin> set (map tx_id (transactions_table world_no_receipts))"
    by code_simp
  have c: "d_receiver_phone sms_ABC \<in> set (map phone (receivers_table world_no_receipts))"
    by code_simp
  have t: "receipt_ABC = \<lparr>tx_id = ''TX1'', trxid = d_trxid sms_ABC,
               amount_cents = d_amount_cents sms_ABC,
               receiver_phone = d_receiver_phone sms_ABC,
               sender_phone = Some (d_sender_phone sms_ABC),
               received_at = d_received_at sms_ABC, tx_created_at = 1000500\<rparr>"
    by (simp add: receipt_ABC_def sms_ABC_def)
  have w: "world_no_receipts\<lparr>transactions_table := [receipt_ABC]\<rparr>
           = world_no_receipts\<lparr>transactions_table :=
               transactions_table world_no_receipts @ [receipt_ABC]\<rparr>"
    by (simp add: world_no_receipts_def)
  have k: "d_trxid sms_ABC = js ''ABC123''" by (simp add: sms_ABC_def)
  show ?thesis
    using C8_idempotent_ingestion [OF a b c t w, of "''TX9''" 1000900] by (simp add: k)
qed

section \<open>C9: the retry phase isolates errors\<close>

lemma retrySessions_tally:
  "verifiedCount (fst (retrySessions now sessions c w))
     + failedCount (fst (retrySessions now sessions c w))
     + stillPendingCount (fst (retrySessions now sessions c w))
   = verifiedCount c + failedCount c + stillPendingCount c + length sessions"
proof (induction sessions arbitrary: c w)
  case Nil
  show ?case by simp
next
  case (Cons s rest)
  obtain res w' where a: "attemptVerification (tracking_id s) now w = (res, w')"
    by (cases "attemptVerification (tracking_id s) now w")
  show ?case by (cases res) (simp_all add: a Cons.IH)
qed

lemma retrySessions_append:
  "retrySessions now (xs @ ys) c w
   = retrySessions now ys (fst (retrySessions now xs c w)) (snd (retrySessions now xs c w))"
proof (induction xs arbitrary: c w)
  case Nil
  show ?case by simp
next
  case (Cons s rest)
  obtain res w' where a: "attemptVerification (tracking_id s) now w = (res, w')"
    by (cases "attemptVerification (tracking_id s) now w")
  show ?case by (cases res) (simp_all add: a Cons.IH)
qed

lemma attemptVerification_error_no_write:
  "attemptVerification i now w = (Inl e, w') \<Longrightarrow> w' = w"
  by (auto simp add: attemptVerification_def Let_def split: option.splits if_splits sum.splits)

lemma scheduledHandler_tally:
  "report_verified (fst (scheduledHandler now w)) + report_failed (fst (scheduledHandler now w))
     + report_still_pending (fst (scheduledHandler now w))
   = report_total_processed (fst (scheduledHandler now w))"
  using retrySessions_tally [where c = "\<lparr>verifiedCount = 0, failedCount = 0, stillPendingCount = 0\<rparr>"]
  by (simp add: scheduledHandler_def Let_def split_beta)

text \<open>
  C9. In the retry loop over \<open>before @ s # rest\<close>: if \<open>attemptVerification\<close> throws
  for \<open>s\<close>, the loop goes on with \<open>rest\<close>, from the state and the tallies reached
  before \<open>s\<close> with the failed tally one higher; and at the end every session of the
  list has been counted as verified, failed or still pending.
\<close>

theorem C9_sweep_isolates_errors:
  assumes "attemptVerification (tracking_id s) now (snd (retrySessions now before c w)) = (Inl e, w')"
  shows "retrySessions now (before @ s # rest) c w
         = retrySessions now rest
             ((fst (retrySessions now before c w))
                \<lparr>failedCount := failedCount (fst (retrySessions now before c w)) + 1\<rparr>)
             (snd (retrySessions now before c w))
       \<and> verifiedCount (fst (retrySessions now (before @ s # rest) c w))
           + failedCount (fst (retrySessions now (before @ s # rest) c w))
           + stillPendingCount (fst (retrySessions now (before @ s # rest) c w))
         = verifiedCount c + failedCount c + stillPendingCount c
           + length (before @ s # rest)"
proof -
  have "w' = snd (retrySessions now before c w)"
    using attemptVerification_error_no_write [OF assms] .
  then show ?thesis
    using assms by (simp add: retrySessions_append retrySessions_tally)
qed


theorem C9_sweep_isolates_errors_witness:
  "attemptVerification ''T0'' 1003000 world_broken_session = (Inl JsonParseError, world_broken_session)
   \<and> fst (retrySessions 1003000 [session_T0_broken, session_T1]
            \<lparr>verifiedCount = 0, failedCount = 0, stillPendingCount = 0\<rparr> world_broken_session)
       = \<lparr>verifiedCount = 1, failedCount = 1, stillPendingCount = 0\<rparr>
   \<and> map status (tracking_table (snd (retrySessions 1003000 [session_T0_broken, session_T1]
            \<lparr>verifiedCount = 0, failedCount = 0, stillPendingCount = 0\<rparr> world_broken_session)))
       = [submitted_trx, verified]"
proof -
  have a: "attemptVerification (tracking_id session_T0_broken) 1003000
             (snd (retrySessions 1003000 []
                \<lparr>verifiedCount = 0, failedCount = 0, stillPendingCount = 0\<rparr> world_broken_session))
           = (Inl JsonParseError, world_broken_session)"
    by code_simp
  have b: "attemptVerification ''T0'' 1003000 world_broken_session
           = (Inl JsonParseError, world_broken_session)"
    by code_simp
  have c: "retrySessions 1003000 [session_T1]
             \<lparr>verifiedCount = 0, failedCount = 1, stillPendingCount = 0\<rparr> world_broken_session
           = (\<lparr>verifiedCount = 1, failedCount = 1, stillPendingCount = 0\<rparr>,
              world_broken_session\<lparr>tracking_table :=
                 [session_T0_broken,
                  session_T1\<lparr>status := verified, updated_at := 1003000,
                    matched_transaction_id := Some ''TX1'',
                    tracking_notes := Some (NoteText ''Verified successfully'')\<rparr>]\<rparr>)"
    by code_simp
  have r: "retrySessions 1003000 [session_T0_broken, session_T1]
             \<lparr>verifiedCount = 0, failedCount = 0, stillPendingCount = 0\<rparr> world_broken_session
           = (\<lparr>verifiedCount = 1, failedCount = 1, stillPendingCount = 0\<rparr>,
              world_broken_session\<lparr>tracking_table :=
                 [session_T0_broken,
                  session_T1\<lparr>status := verified, updated_at := 1003000,
                    matched_transaction_id := Some ''TX1'',
                    tracking_notes := Some (NoteText ''Verified successfully'')\<rparr>]\<rparr>)"
    using C9_sweep_isolates_errors [OF a, of "[session_T1]"] c
    by (simp del: retrySessions.simps add: retrySessions.simps(1))
  have st: "status session_T0_broken = submitted_trx" by code_simp
  show ?thesis
    by (simp add: r b st del: retrySessions.simps)
qed

end
